theory Spec2Isabelle
  imports Main
begin

section \<open>The wall clock\<close>

text \<open>
  The program reads the wall clock in two forms: \<^verbatim>\<open>Date.now()\<close>, the milliseconds since
  the epoch, and \<^verbatim>\<open>new Date().toISOString().split('T')[0]\<close>, the UTC calendar date as a
  \<^verbatim>\<open>YYYY-MM-DD\<close> string. A \<open>clock\<close> is what both give during the synchronous part of one
  call. JavaScript numbers are modelled as integers (every value the program computes
  from a clock reading and a counter is one).
\<close>

record clock =
  nowMs :: int
  today :: string

text \<open>
  \<^verbatim>\<open>new Date(ms).toISOString()\<close> throws a RangeError when \<open>ms\<close> is outside the range of
  a JavaScript date, which is 8.64e15 milliseconds either side of the epoch.
\<close>

definition validDate :: "int \<Rightarrow> bool" where
  "validDate ms \<longleftrightarrow> - 8640000000000000 \<le> ms \<and> ms \<le> 8640000000000000"

text \<open>A call either returns a value or throws; the state it leaves is kept beside it.\<close>

datatype 'a completion = Returns 'a | Throws

section \<open>plugins/rateLimitHandler.ts\<close>

record RateLimitHandler =
  monthlyCapExceeded :: bool
  monthlyCapResetTime :: int
  dailyReadAttempts :: int
  lastResetDate :: string
  maxDailyReadAttempts :: int

text \<open>The field initialisers of the class, before the constructor body runs.\<close>

definition fieldDefaults :: RateLimitHandler where
  "fieldDefaults = \<lparr> monthlyCapExceeded = False, monthlyCapResetTime = 0,
     dailyReadAttempts = 0, lastResetDate = [], maxDailyReadAttempts = 50 \<rparr>"

definition resetDailyCounterIfNeeded :: "clock \<Rightarrow> RateLimitHandler \<Rightarrow> RateLimitHandler" where
  "resetDailyCounterIfNeeded c h =
     (if lastResetDate h \<noteq> today c
      then h\<lparr> dailyReadAttempts := 0, lastResetDate := today c \<rparr>
      else h)"

definition getInstance :: "clock \<Rightarrow> RateLimitHandler" where
  "getInstance c = resetDailyCounterIfNeeded c fieldDefaults"

subsection \<open>The provider's error object\<close>

text \<open>
  The fields of the error that \<^verbatim>\<open>parseTwitterError\<close> reads: \<^verbatim>\<open>error.code\<close>,
  \<^verbatim>\<open>error.data\<close> with its \<^verbatim>\<open>title\<close>, \<^verbatim>\<open>detail\<close> and \<^verbatim>\<open>type\<close>, and
  \<^verbatim>\<open>error.rateLimit.reset\<close>. A field that is absent is \<open>None\<close>.
\<close>

record errorData =
  dataTitle :: "string option"
  dataDetail :: "string option"
  dataType :: "string option"

record twitterError =
  errCode :: "int option"
  errData :: "errorData option"
  errRateLimitReset :: "int option"

fun startsWith :: "string \<Rightarrow> string \<Rightarrow> bool" where
  "startsWith s [] = True"
| "startsWith [] (p # ps) = False"
| "startsWith (c # cs) (p # ps) = (c = p \<and> startsWith cs ps)"

text \<open>\<^verbatim>\<open>String.prototype.includes\<close>: the pattern occurs as a contiguous substring.\<close>

fun includesStr :: "string \<Rightarrow> string \<Rightarrow> bool" where
  "includesStr [] p = (p = [])"
| "includesStr (c # cs) p = (startsWith (c # cs) p \<or> includesStr cs p)"

definition parseTwitterError :: "twitterError \<Rightarrow> bool \<times> int option" where
  "parseTwitterError e =
     (case errData e of
        Some d \<Rightarrow>
          if errCode e = Some 429
             \<and> dataTitle d = Some ''UsageCapExceeded''
             \<and> (case dataDetail d of None \<Rightarrow> False
                 | Some t \<Rightarrow> includesStr t ''Monthly product cap'')
             \<and> dataType d = Some ''https://api.twitter.com/2/problems/usage-capped''
          then (True, errRateLimitReset e)
          else (False, None)
      | None \<Rightarrow> (False, None))"

text \<open>
  \<^verbatim>\<open>resetTime || 0\<close>: an absent reset time, and the number 0, both give 0.
\<close>

definition orZero :: "int option \<Rightarrow> int" where
  "orZero v = (case v of None \<Rightarrow> 0 | Some n \<Rightarrow> if n = 0 then 0 else n)"

text \<open>
  \<^verbatim>\<open>handleTwitterError\<close> assigns the two fields and then logs the reset date with
  \<^verbatim>\<open>toISOString\<close>, which throws when the reset time is no valid date; the fields stay
  assigned.
\<close>

definition handleTwitterError ::
  "twitterError \<Rightarrow> RateLimitHandler \<Rightarrow> unit completion \<times> RateLimitHandler" where
  "handleTwitterError e h =
     (case parseTwitterError e of
        (True, resetTime) \<Rightarrow>
          (let h' = h\<lparr> monthlyCapExceeded := True, monthlyCapResetTime := orZero resetTime \<rparr>
           in if validDate (monthlyCapResetTime h' * 1000) then (Returns (), h')
              else (Throws, h'))
      | (False, _) \<Rightarrow> (Returns (), h))"

text \<open>
  \<^verbatim>\<open>canMakeReadRequest\<close>: the daily roll comes first; the monthly check compares
  \<^verbatim>\<open>Math.floor(Date.now() / 1000)\<close> with the reset time and, when it denies, logs the
  reset date with \<^verbatim>\<open>toISOString\<close> before returning false.
\<close>

definition canMakeReadRequest ::
  "clock \<Rightarrow> RateLimitHandler \<Rightarrow> bool completion \<times> RateLimitHandler" where
  "canMakeReadRequest c h =
     (let h1 = resetDailyCounterIfNeeded c h in
      if monthlyCapExceeded h1 \<and> nowMs c div 1000 < monthlyCapResetTime h1
      then (if validDate (monthlyCapResetTime h1 * 1000) then (Returns False, h1)
            else (Throws, h1))
      else
        (let h2 = (if monthlyCapExceeded h1
                   then h1\<lparr> monthlyCapExceeded := False, monthlyCapResetTime := 0 \<rparr>
                   else h1)
         in if maxDailyReadAttempts h2 \<le> dailyReadAttempts h2 then (Returns False, h2)
            else (Returns True, h2)))"

definition incrementReadAttempts :: "RateLimitHandler \<Rightarrow> RateLimitHandler" where
  "incrementReadAttempts h = h\<lparr> dailyReadAttempts := dailyReadAttempts h + 1 \<rparr>"

definition setMaxDailyReadAttempts :: "int \<Rightarrow> RateLimitHandler \<Rightarrow> RateLimitHandler" where
  "setMaxDailyReadAttempts m h = h\<lparr> maxDailyReadAttempts := m \<rparr>"

section \<open>The files under /app/data\<close>

text \<open>
  What the program finds when it opens one of its two JSON files: no file
  (\<^verbatim>\<open>fs.existsSync\<close> is false); a file whose reading, parsing or first field access
  throws; or a file that parses to a value of the shape the program writes.
\<close>

datatype 'a stored = Absent | Garbled | Parsed 'a

text \<open>\<^verbatim>\<open>Record<string, number>\<close>: recipient id to the time of the send.\<close>

type_synonym ledger = "string \<rightharpoonup> int"

text \<open>The object in dm_state.json; a field may be missing from a file edited by hand.\<close>

record persistedState =
  savedLastDMTime :: "int option"
  savedDailyDMs :: "int option"
  savedLastResetDate :: "string option"

text \<open>
  The directory /app/data with dm_state.json and sent_dms.json. \<open>writable\<close> says whether
  \<^verbatim>\<open>mkdirSync\<close> and \<^verbatim>\<open>writeFileSync\<close> succeed; the environment may change it between
  calls.
\<close>

record disk =
  dirExists :: bool
  writable :: bool
  stateFile :: "persistedState stored"
  sentFile :: "ledger stored"

text \<open>\<^verbatim>\<open>if (!fs.existsSync(dir)) fs.mkdirSync(dir, ...)\<close>; \<open>None\<close> when mkdirSync throws.\<close>

definition ensureDirExists :: "disk \<Rightarrow> disk option" where
  "ensureDirExists d =
     (if dirExists d then Some d
      else if writable d then Some (d\<lparr> dirExists := True \<rparr>)
      else None)"

text \<open>\<^verbatim>\<open>value || ''\<close> on a string field.\<close>

definition orEmpty :: "string option \<Rightarrow> string" where
  "orEmpty v = (case v of None \<Rightarrow> [] | Some t \<Rightarrow> t)"

section \<open>plugins/dmPlugin/dmPlugin.ts: the send_dm function of the worker\<close>

text \<open>
  What \<^verbatim>\<open>twitterClient.v2.sendDmToParticipant\<close> does: it throws the provider's error,
  or it answers, with or without a \<^verbatim>\<open>data\<close> member. A text is a list of characters,
  one for each UTF-16 code unit, which is what \<^verbatim>\<open>.length\<close> counts.
\<close>

datatype apiResult = ApiThrows twitterError | ApiAnswers bool

datatype gameStatus = StatusDone | StatusFailed

definition send_dm :: "string \<Rightarrow> string \<Rightarrow> apiResult \<Rightarrow> gameStatus" where
  "send_dm user_id message_text api =
     (if user_id = [] then StatusFailed
      else if message_text = [] then StatusFailed
      else if length message_text < 10 \<or> 10000 < length message_text then StatusFailed
      else (case api of
              ApiThrows e \<Rightarrow> StatusFailed
            | ApiAnswers hasData \<Rightarrow> if hasData then StatusDone else StatusFailed))"

section \<open>plugins/dmPlugin/dmManager.ts\<close>

record userInfo =
  userId :: string
  username :: string
  userContext :: string

text \<open>
  The answer of the worker's find_target_user: none at all, a status other than
  \<^verbatim>\<open>done\<close>, or \<^verbatim>\<open>done\<close> with a feedback text that \<^verbatim>\<open>JSON.parse\<close> turns into a user
  (\<open>None\<close> when it throws).
\<close>

datatype findResponse = FindUndefined | FindNotDone | FindDone "userInfo option"

text \<open>
  The language-model call: it throws (also when the answer has no first choice), or it
  gives the text \<^verbatim>\<open>content?.trim() || ''\<close>.
\<close>

datatype generation = GenThrows | GenText string

text \<open>
  What the outside world does during one run of \<^verbatim>\<open>findAndSendDM\<close> and
  \<^verbatim>\<open>attemptDM\<close>: the three collaborators' answers, \<^verbatim>\<open>Date.now()\<close> when the ledger
  entry is written (\<open>sentAt\<close>) and \<^verbatim>\<open>Date.now()\<close> when \<^verbatim>\<open>lastDMTime\<close> is set
  (\<open>doneAt\<close>).
\<close>

record world =
  findResult :: findResponse
  generated :: generation
  transport :: apiResult
  sentAt :: int
  doneAt :: int

definition saveSentDMs :: "ledger \<Rightarrow> disk \<Rightarrow> disk" where
  "saveSentDMs l d = (if dirExists d \<and> writable d then d\<lparr> sentFile := Parsed l \<rparr> else d)"

text \<open>
  \<^verbatim>\<open>loadSentDMs\<close>: a file that parses replaces the ledger in memory; with no file the
  ledger in memory is kept and written out; whatever throws inside the \<^verbatim>\<open>try\<close>
  (reading, parsing, creating the directory) empties the ledger in memory.
\<close>

definition loadSentDMs :: "ledger \<times> disk \<Rightarrow> ledger \<times> disk" where
  "loadSentDMs ld =
     (case ld of (l, d) \<Rightarrow>
        (case sentFile d of
           Parsed m \<Rightarrow> (m, d)
         | Garbled \<Rightarrow> (Map.empty, d)
         | Absent \<Rightarrow>
             (case ensureDirExists d of
                None \<Rightarrow> (Map.empty, d)
              | Some d' \<Rightarrow> (l, saveSentDMs l d'))))"

text \<open>
  The ledger is a plain object, so a lookup that finds no property of its own goes on to
  \<^verbatim>\<open>Object.prototype\<close>, whose members are these; each is a function or an object.
\<close>

definition objectPrototypeMembers :: "string list" where
  "objectPrototypeMembers =
     [''constructor'', ''__defineGetter__'', ''__defineSetter__'', ''hasOwnProperty'',
      ''__lookupGetter__'', ''__lookupSetter__'', ''isPrototypeOf'',
      ''propertyIsEnumerable'', ''toString'', ''valueOf'', ''__proto__'',
      ''toLocaleString'']"

text \<open>
  \<^verbatim>\<open>if (sentDMs[id])\<close>: the value found is truthy. An entry of the ledger is truthy when
  its time is not 0; an id with no entry is truthy when it names a member of
  \<^verbatim>\<open>Object.prototype\<close>.
\<close>

definition alreadySent :: "ledger \<Rightarrow> string \<Rightarrow> bool" where
  "alreadySent l i =
     (case l i of None \<Rightarrow> i \<in> set objectPrototypeMembers | Some t \<Rightarrow> t \<noteq> 0)"

text \<open>
  The ways out of \<^verbatim>\<open>findAndSendDM\<close>, one for each \<^verbatim>\<open>return\<close> and \<^verbatim>\<open>catch\<close> of the
  source. The function returns nothing to its caller and never throws: every one of
  them is a promise that resolves.
\<close>

datatype dmExit =
    ExitFindFailed
  | ExitProcessError
  | ExitAlreadySent string
  | ExitGenerationError
  | ExitInvalidContent
  | ExitSendFailed
  | ExitSent string

definition findAndSendDM :: "world \<Rightarrow> ledger \<times> disk \<Rightarrow> dmExit \<times> ledger \<times> disk" where
  "findAndSendDM w ld =
     (case ld of (l, d) \<Rightarrow>
        (case findResult w of
           FindUndefined \<Rightarrow> (ExitFindFailed, l, d)
         | FindNotDone \<Rightarrow> (ExitFindFailed, l, d)
         | FindDone None \<Rightarrow> (ExitProcessError, l, d)
         | FindDone (Some u) \<Rightarrow>
             if alreadySent l (userId u) then (ExitAlreadySent (userId u), l, d)
             else (case generated w of
                     GenThrows \<Rightarrow> (ExitGenerationError, l, d)
                   | GenText dmText \<Rightarrow>
                       if length dmText < 10 then (ExitInvalidContent, l, d)
                       else (case send_dm (userId u) dmText (transport w) of
                               StatusFailed \<Rightarrow> (ExitSendFailed, l, d)
                             | StatusDone \<Rightarrow>
                                 (let l' = l(userId u \<mapsto> sentAt w)
                                  in (ExitSent (userId u), l', saveSentDMs l' d))))))"

text \<open>
  \<^verbatim>\<open>findAndSendDM\<close> in the two parts its awaits make. The first, up to the duplicate
  check of line 72, runs in the turn of the event loop that starts the run (the await on
  the worker's find does not leave the turn): it ends the run, or it gives the user to
  write to. The second runs when the text and the transport have answered: the length
  check, the send, and the write of lines 122-123, which looks at the ledger no more.
\<close>

definition findAndSendDM_check :: "findResponse \<Rightarrow> ledger \<Rightarrow> dmExit + userInfo" where
  "findAndSendDM_check f l =
     (case f of
        FindUndefined \<Rightarrow> Inl ExitFindFailed
      | FindNotDone \<Rightarrow> Inl ExitFindFailed
      | FindDone None \<Rightarrow> Inl ExitProcessError
      | FindDone (Some u) \<Rightarrow>
          if alreadySent l (userId u) then Inl (ExitAlreadySent (userId u)) else Inr u)"

definition findAndSendDM_send ::
  "world \<Rightarrow> userInfo \<Rightarrow> ledger \<times> disk \<Rightarrow> dmExit \<times> ledger \<times> disk" where
  "findAndSendDM_send w u ld =
     (case ld of (l, d) \<Rightarrow>
        (case generated w of
           GenThrows \<Rightarrow> (ExitGenerationError, l, d)
         | GenText dmText \<Rightarrow>
             if length dmText < 10 then (ExitInvalidContent, l, d)
             else (case send_dm (userId u) dmText (transport w) of
                     StatusFailed \<Rightarrow> (ExitSendFailed, l, d)
                   | StatusDone \<Rightarrow>
                       (let l' = l(userId u \<mapsto> sentAt w)
                        in (ExitSent (userId u), l', saveSentDMs l' d)))))"

text \<open>\<^verbatim>\<open>startDMCampaign(0)\<close>, the one-time branch, which is the only one the scheduler calls.\<close>

definition startDMCampaign :: "world \<Rightarrow> ledger \<times> disk \<Rightarrow> dmExit \<times> ledger \<times> disk" where
  "startDMCampaign w ld = findAndSendDM w (loadSentDMs ld)"

text \<open>
  Runs of \<^verbatim>\<open>findAndSendDM\<close> one after the other on the ledger in memory, each finished
  before the next starts; \<open>ws\<close> are the worlds of the runs, and the exits are collected
  in order.
\<close>

fun findAndSendDMs :: "world list \<Rightarrow> ledger \<times> disk \<Rightarrow> dmExit list \<times> ledger \<times> disk" where
  "findAndSendDMs [] ld = ([], ld)"
| "findAndSendDMs (w # ws) ld =
     (case findAndSendDM w ld of
        (x, ld') \<Rightarrow> (case findAndSendDMs ws ld' of (xs, ld'') \<Rightarrow> (x # xs, ld'')))"

text \<open>
  Calls of \<^verbatim>\<open>startDMCampaign(0)\<close> one after the other, each finished before the next
  starts, as the scheduler makes them when no attempt overlaps another: every call
  loads the ledger from the file again.
\<close>

fun startDMCampaigns :: "world list \<Rightarrow> ledger \<times> disk \<Rightarrow> dmExit list \<times> ledger \<times> disk" where
  "startDMCampaigns [] ld = ([], ld)"
| "startDMCampaigns (w # ws) ld =
     (case startDMCampaign w ld of
        (x, ld') \<Rightarrow> (case startDMCampaigns ws ld' of (xs, ld'') \<Rightarrow> (x # xs, ld'')))"

text \<open>
  Two calls of \<^verbatim>\<open>startDMCampaign(0)\<close> of which the second is made while the first
  waits for its text: the first loads and checks, the second loads and checks, then the
  first gets its text and its send through and writes, then the second. A call that
  ends at its check is over before the other goes on.
\<close>

definition overlappingCampaigns ::
  "world \<Rightarrow> world \<Rightarrow> ledger \<times> disk \<Rightarrow> dmExit \<times> dmExit \<times> ledger \<times> disk" where
  "overlappingCampaigns wA wB ld =
     (case loadSentDMs ld of
        (lA, dA) \<Rightarrow>
          (case findAndSendDM_check (findResult wA) lA of
             Inl xA \<Rightarrow> (case startDMCampaign wB (lA, dA) of (xB, ld') \<Rightarrow> (xA, xB, ld'))
           | Inr uA \<Rightarrow>
               (case loadSentDMs (lA, dA) of
                  (lB, dB) \<Rightarrow>
                    (case findAndSendDM_check (findResult wB) lB of
                       Inl xB \<Rightarrow>
                         (case findAndSendDM_send wA uA (lB, dB) of
                            (xA, ld') \<Rightarrow> (xA, xB, ld'))
                     | Inr uB \<Rightarrow>
                         (case findAndSendDM_send wA uA (lB, dB) of
                            (xA, ldA) \<Rightarrow>
                              (case findAndSendDM_send wB uB ldA of
                                 (xB, ldB) \<Rightarrow> (xA, xB, ldB)))))))"

section \<open>The scheduler and its HTTP server\<close>

definition DMS_PER_DAY_TARGET :: int where
  "DMS_PER_DAY_TARGET = 30"

text \<open>The source's line is \<^verbatim>\<open>const DM_INTERVAL = 5 * 60 * 1000; // 24 minutes (60 per day)\<close>.\<close>

definition DM_INTERVAL :: int where
  "DM_INTERVAL = 5 * 60 * 1000"

text \<open>
  The module's variables \<^verbatim>\<open>lastDMTime\<close>, \<^verbatim>\<open>dailyDMs\<close> and \<^verbatim>\<open>lastResetDate\<close> (here
  \<open>dmLastResetDate\<close>, the handler's field has the name already).
\<close>

record dmState =
  lastDMTime :: int
  dailyDMs :: int
  dmLastResetDate :: string

definition initialVars :: dmState where
  "initialVars = \<lparr> lastDMTime = 0, dailyDMs = 0, dmLastResetDate = [] \<rparr>"

text \<open>\<^verbatim>\<open>saveState\<close>: directory creation and write are inside one \<^verbatim>\<open>try\<close>.\<close>

definition saveState :: "dmState \<Rightarrow> disk \<Rightarrow> disk" where
  "saveState v d =
     (case ensureDirExists d of
        None \<Rightarrow> d
      | Some d' \<Rightarrow>
          if writable d'
          then d'\<lparr> stateFile := Parsed \<lparr> savedLastDMTime = Some (lastDMTime v),
                   savedDailyDMs = Some (dailyDMs v),
                   savedLastResetDate = Some (dmLastResetDate v) \<rparr> \<rparr>
          else d')"

text \<open>\<^verbatim>\<open>loadState\<close>: with no file, or when anything throws, the variables are left alone.\<close>

definition loadState :: "dmState \<Rightarrow> disk \<Rightarrow> dmState" where
  "loadState v d =
     (case stateFile d of
        Parsed p \<Rightarrow> \<lparr> lastDMTime = orZero (savedLastDMTime p),
                     dailyDMs = orZero (savedDailyDMs p),
                     dmLastResetDate = orEmpty (savedLastResetDate p) \<rparr>
      | Absent \<Rightarrow> v
      | Garbled \<Rightarrow> v)"

text \<open>The scheduler's own \<^verbatim>\<open>resetDailyCounterIfNeeded\<close>, which also saves.\<close>

definition resetDailyCounterIfNeeded_dm :: "clock \<Rightarrow> dmState \<times> disk \<Rightarrow> dmState \<times> disk" where
  "resetDailyCounterIfNeeded_dm c vd =
     (case vd of (v, d) \<Rightarrow>
        if dmLastResetDate v \<noteq> today c
        then (let v' = v\<lparr> dailyDMs := 0, dmLastResetDate := today c \<rparr> in (v', saveState v' d))
        else (v, d))"

text \<open>
  The whole process: the scheduler's variables, the ledger \<^verbatim>\<open>sentDMs\<close> of dmManager,
  the disk, and the static \<^verbatim>\<open>RateLimitHandler.instance\<close> (\<open>None\<close> until
  \<^verbatim>\<open>getInstance\<close> is first called).
\<close>

record system =
  vars :: dmState
  sentDMs :: ledger
  files :: disk
  limiter :: "RateLimitHandler option"

text \<open>\<^verbatim>\<open>Math.round(n / d)\<close> for an integer \<open>n\<close> and a positive integer \<open>d\<close>: halves go up.\<close>

definition roundDiv :: "int \<Rightarrow> int \<Rightarrow> int" where
  "roundDiv n d = (2 * n + d) div (2 * d)"

text \<open>
  The ways out of \<^verbatim>\<open>attemptDM\<close>: the two early returns (the first logs the minutes
  remaining), and the run of the campaign, after which the source counts a send
  whatever the campaign did.
\<close>

datatype attemptExit = ExitTooSoon int | ExitDailyTarget | ExitRan dmExit

text \<open>
  \<^verbatim>\<open>attemptDM\<close> up to its \<^verbatim>\<open>await\<close>: the daily roll, the spacing check, the daily
  target. \<open>None\<close> means the checks passed and the campaign is started.
\<close>

definition attemptDM_begin :: "clock \<Rightarrow> system \<Rightarrow> attemptExit option \<times> system" where
  "attemptDM_begin c s =
     (let timeSinceLastDM = nowMs c - lastDMTime (vars s);
          (v1, d1) = resetDailyCounterIfNeeded_dm c (vars s, files s);
          s1 = s\<lparr> vars := v1, files := d1 \<rparr>
      in if timeSinceLastDM < DM_INTERVAL
         then (Some (ExitTooSoon (roundDiv (DM_INTERVAL - timeSinceLastDM) 60000)), s1)
         else if DMS_PER_DAY_TARGET \<le> dailyDMs v1 then (Some ExitDailyTarget, s1)
         else (None, s1))"

text \<open>
  \<^verbatim>\<open>attemptDM\<close> from its \<^verbatim>\<open>await\<close> on: the campaign runs, and when its promise
  resolves (it always does) the counter goes up, \<^verbatim>\<open>lastDMTime\<close> is set and the state is
  saved. The \<^verbatim>\<open>catch\<close> of the source is never entered.
\<close>

definition attemptDM_resume :: "world \<Rightarrow> system \<Rightarrow> attemptExit \<times> system" where
  "attemptDM_resume w s =
     (case startDMCampaign w (sentDMs s, files s) of
        (x, l', d') \<Rightarrow>
          (let v' = (vars s)\<lparr> dailyDMs := dailyDMs (vars s) + 1, lastDMTime := doneAt w \<rparr>
           in (ExitRan x, s\<lparr> vars := v', sentDMs := l', files := saveState v' d' \<rparr>)))"

definition attemptDM :: "clock \<Rightarrow> world \<Rightarrow> system \<Rightarrow> attemptExit \<times> system" where
  "attemptDM c w s =
     (case attemptDM_begin c s of
        (Some x, s1) \<Rightarrow> (x, s1)
      | (None, s1) \<Rightarrow> attemptDM_resume w s1)"

subsection \<open>The HTTP server\<close>

datatype body = StatusText int int int | PlainText string

record response =
  statusCode :: nat
  responseBody :: body

text \<open>
  The request handler, by \<^verbatim>\<open>request.url\<close> (the method is not looked at). The status
  page shows \<^verbatim>\<open>dailyDMs\<close>, the minutes since the last send and the minutes until the
  next. The \<^verbatim>\<open>.catch\<close> of /send-dm answers 500, and is never entered since
  \<^verbatim>\<open>attemptDM\<close> does not reject.
\<close>

definition server :: "string \<Rightarrow> clock \<Rightarrow> world \<Rightarrow> system \<Rightarrow> response \<times> system" where
  "server url c w s =
     (if url = ''/'' then
        (\<lparr> statusCode = 200,
           responseBody = StatusText (dailyDMs (vars s))
             (roundDiv (nowMs c - lastDMTime (vars s)) 60000)
             (max 0 (roundDiv (DM_INTERVAL - (nowMs c - lastDMTime (vars s))) 60000)) \<rparr>, s)
      else if url = ''/send-dm'' then
        (case attemptDM c w s of
           (x, s') \<Rightarrow> (\<lparr> statusCode = 200, responseBody = PlainText ''DM attempt completed'' \<rparr>, s'))
      else if url = ''/reset'' then
        (let v' = (vars s)\<lparr> dailyDMs := 0 \<rparr>
         in (\<lparr> statusCode = 200, responseBody = PlainText ''Counter reset'' \<rparr>,
             s\<lparr> vars := v', files := saveState v' (files s) \<rparr>))
      else (\<lparr> statusCode = 404, responseBody = PlainText ''Not found'' \<rparr>, s))"

subsection \<open>Startup\<close>

text \<open>
  \<^verbatim>\<open>main\<close>: \<^verbatim>\<open>loadState()\<close>, then \<^verbatim>\<open>dmManager.initialize()\<close>, which only logs; the
  process would exit with code 1 if that threw. Then the server listens and the
  scheduler starts.
\<close>

datatype startup = Exits nat | Runs system

definition main :: "disk \<Rightarrow> startup" where
  "main d = Runs \<lparr> vars = loadState initialVars d, sentDMs = Map.empty,
                   files = d, limiter = None \<rparr>"

section \<open>Sequences of calls\<close>

text \<open>
  The calls a client of the handler makes after a cap has been recorded, run one after
  the other; the results of the \<^verbatim>\<open>canMakeReadRequest\<close> calls are collected in order.
\<close>

datatype handlerCall =
    CanMakeReadRequest clock
  | IncrementReadAttempts
  | SetMaxDailyReadAttempts int

fun handlerCalls ::
  "handlerCall list \<Rightarrow> RateLimitHandler \<Rightarrow> bool completion list \<times> RateLimitHandler" where
  "handlerCalls [] h = ([], h)"
| "handlerCalls (CanMakeReadRequest c # cs) h =
     (case canMakeReadRequest c h of
        (r, h') \<Rightarrow> (case handlerCalls cs h' of (rs, h'') \<Rightarrow> (r # rs, h'')))"
| "handlerCalls (IncrementReadAttempts # cs) h = handlerCalls cs (incrementReadAttempts h)"
| "handlerCalls (SetMaxDailyReadAttempts m # cs) h =
     handlerCalls cs (setMaxDailyReadAttempts m h)"

section \<open>The event loop around attemptDM\<close>

text \<open>
  \<^verbatim>\<open>attemptDM\<close> is an async function with one \<^verbatim>\<open>await\<close>, on the campaign. While a call
  waits there, the event loop runs other callbacks: a request for /send-dm calls
  \<^verbatim>\<open>attemptDM()\<close> again, and so does the timer of \<^verbatim>\<open>runScheduler\<close>, which does
  \<^verbatim>\<open>await attemptDM()\<close> and only then \<^verbatim>\<open>setTimeout(runScheduler, ...)\<close>.

  The source keeps no record of the calls that wait; the two counters below are there to
  state properties of them. \<open>timerArmed\<close> says that a call of \<^verbatim>\<open>runScheduler\<close> is
  pending (the one \<^verbatim>\<open>main\<close> makes, or a timeout). The campaign of a waiting call is
  taken as one step, at the moment its promise resolves; the variables the gate reads
  are written by the gate, by the code after the \<^verbatim>\<open>await\<close> and by /reset only, so the
  campaign's own awaits make no difference to what a trigger decides. The ledger that two
  overlapping campaigns leave when they write to one recipient is not that of this step,
  their checks coming before either write: that schedule is \<open>overlappingCampaigns\<close>.
\<close>

record running =
  proc :: system
  timerArmed :: bool
  schedulerAttempts :: nat
  manualAttempts :: nat

datatype event =
    TimerFires clock
  | SendDmRequest clock
  | SchedulerSettles world
  | ManualSettles world

definition step :: "event \<Rightarrow> running \<Rightarrow> running" where
  "step ev r =
     (case ev of
        TimerFires c \<Rightarrow>
          if \<not> timerArmed r then r
          else (case attemptDM_begin c (proc r) of
                  (Some x, s1) \<Rightarrow> r\<lparr> proc := s1, timerArmed := True \<rparr>
                | (None, s1) \<Rightarrow>
                    r\<lparr> proc := s1, timerArmed := False,
                       schedulerAttempts := schedulerAttempts r + 1 \<rparr>)
      | SendDmRequest c \<Rightarrow>
          (case attemptDM_begin c (proc r) of
             (Some x, s1) \<Rightarrow> r\<lparr> proc := s1 \<rparr>
           | (None, s1) \<Rightarrow> r\<lparr> proc := s1, manualAttempts := manualAttempts r + 1 \<rparr>)
      | SchedulerSettles w \<Rightarrow>
          if schedulerAttempts r = 0 then r
          else r\<lparr> proc := snd (attemptDM_resume w (proc r)), timerArmed := True,
                  schedulerAttempts := schedulerAttempts r - 1 \<rparr>
      | ManualSettles w \<Rightarrow>
          if manualAttempts r = 0 then r
          else r\<lparr> proc := snd (attemptDM_resume w (proc r)),
                  manualAttempts := manualAttempts r - 1 \<rparr>)"

fun run :: "event list \<Rightarrow> running \<Rightarrow> running" where
  "run [] r = r"
| "run (ev # evs) r = run evs (step ev r)"

text \<open>The process as \<^verbatim>\<open>main\<close> leaves it: the first call of \<^verbatim>\<open>runScheduler\<close> pending.\<close>

definition started :: "system \<Rightarrow> running" where
  "started s = \<lparr> proc = s, timerArmed = True, schedulerAttempts = 0, manualAttempts = 0 \<rparr>"

section \<open>Example inputs\<close>

definition clockAt :: "int \<Rightarrow> string \<Rightarrow> clock" where
  "clockAt ms day = \<lparr> nowMs = ms, today = day \<rparr>"

text \<open>The provider's monthly-cap error, with the reset time its rate-limit header gave.\<close>

definition usageCapError :: "int option \<Rightarrow> twitterError" where
  "usageCapError r = \<lparr> errCode = Some 429,
     errData = Some \<lparr> dataTitle = Some ''UsageCapExceeded'',
       dataDetail = Some ''Usage cap exceeded: Monthly product cap'',
       dataType = Some ''https://api.twitter.com/2/problems/usage-capped'' \<rparr>,
     errRateLimitReset = r \<rparr>"

definition cappedHandler :: "int \<Rightarrow> string \<Rightarrow> RateLimitHandler" where
  "cappedHandler resetAt day = \<lparr> monthlyCapExceeded = True, monthlyCapResetTime = resetAt,
     dailyReadAttempts = 7, lastResetDate = day, maxDailyReadAttempts = 50 \<rparr>"

definition freshDisk :: disk where
  "freshDisk = \<lparr> dirExists = True, writable = True, stateFile = Absent, sentFile = Absent \<rparr>"

definition someUser :: userInfo where
  "someUser = \<lparr> userId = ''1234567890'', username = ''reader'',
     userContext = ''potential connection'' \<rparr>"

text \<open>A world in which a user is found, a text is generated and the transport does \<open>api\<close>.\<close>

definition worldWith :: "apiResult \<Rightarrow> int \<Rightarrow> int \<Rightarrow> world" where
  "worldWith api t1 t2 = \<lparr> findResult = FindDone (Some someUser),
     generated = GenText ''Really enjoyed your latest thread!'',
     transport = api, sentAt = t1, doneAt = t2 \<rparr>"

definition systemWith :: "dmState \<Rightarrow> ledger \<Rightarrow> RateLimitHandler option \<Rightarrow> system" where
  "systemWith v l h = \<lparr> vars = v, sentDMs = l, files = freshDisk, limiter = h \<rparr>"

section \<open>Properties of the rate-limit handler\<close>

lemma resetDailyCounterIfNeeded_frame:
  "monthlyCapExceeded (resetDailyCounterIfNeeded c h) = monthlyCapExceeded h"
  "monthlyCapResetTime (resetDailyCounterIfNeeded c h) = monthlyCapResetTime h"
  "maxDailyReadAttempts (resetDailyCounterIfNeeded c h) = maxDailyReadAttempts h"
  "lastResetDate (resetDailyCounterIfNeeded c h) = today c"
  by (simp_all add: resetDailyCounterIfNeeded_def)

lemma canMakeReadRequest_before_reset:
  assumes "monthlyCapExceeded h" and "nowMs c div 1000 < monthlyCapResetTime h"
    and "validDate (monthlyCapResetTime h * 1000)"
  shows "canMakeReadRequest c h = (Returns False, resetDailyCounterIfNeeded c h)"
  using assms by (simp add: canMakeReadRequest_def resetDailyCounterIfNeeded_frame Let_def)

lemma canMakeReadRequest_after_reset:
  assumes "monthlyCapExceeded h" and "monthlyCapResetTime h \<le> nowMs c div 1000"
  shows "canMakeReadRequest c h =
     (Returns (dailyReadAttempts (resetDailyCounterIfNeeded c h) < maxDailyReadAttempts h),
      (resetDailyCounterIfNeeded c h)\<lparr> monthlyCapExceeded := False, monthlyCapResetTime := 0 \<rparr>)"
  using assms by (simp add: canMakeReadRequest_def resetDailyCounterIfNeeded_frame Let_def)

lemma handlerCalls_before_reset:
  assumes "monthlyCapExceeded h" and "monthlyCapResetTime h = T" and "validDate (T * 1000)"
    and "\<forall>c. CanMakeReadRequest c \<in> set cs \<longrightarrow> nowMs c div 1000 < T"
  shows "list_all (\<lambda>r. r = Returns False) (fst (handlerCalls cs h))
       \<and> monthlyCapExceeded (snd (handlerCalls cs h))
       \<and> monthlyCapResetTime (snd (handlerCalls cs h)) = T"
  using assms
proof (induction cs h rule: handlerCalls.induct)
  case (1 h)
  then show ?case by simp
next
  case (2 c cs h)
  have r: "canMakeReadRequest c h = (Returns False, resetDailyCounterIfNeeded c h)"
    using 2 by (intro canMakeReadRequest_before_reset) auto
  with 2 show ?case
    by (auto simp: resetDailyCounterIfNeeded_frame split: prod.splits)
next
  case (3 cs h)
  then show ?case by (simp add: incrementReadAttempts_def)
next
  case (4 m cs h)
  then show ?case by (simp add: setMaxDailyReadAttempts_def)
qed

text \<open>
  Claim C3. Once \<^verbatim>\<open>handleTwitterError\<close> has recorded a monthly-cap error whose reset
  time is \<open>T\<close> (epoch seconds, a valid date), every \<^verbatim>\<open>canMakeReadRequest\<close> made at a
  time before \<open>T\<close> returns false, whatever increments and limit changes come between,
  and the cap stays recorded; the first call at a time of \<open>T\<close> or later clears the flag
  and goes on to the daily limit, which alone decides its result.
\<close>

theorem monthly_cap_denies_until_reset:
  assumes "parseTwitterError e = (True, Some T)"
    and "validDate (T * 1000)"
    and "\<forall>c. CanMakeReadRequest c \<in> set cs \<longrightarrow> nowMs c div 1000 < T"
    and "T \<le> nowMs c' div 1000"
  shows "handleTwitterError e h =
           (Returns (), h\<lparr> monthlyCapExceeded := True, monthlyCapResetTime := T \<rparr>)
       \<and> list_all (\<lambda>r. r = Returns False) (fst (handlerCalls cs (snd (handleTwitterError e h))))
       \<and> (let hN = snd (handlerCalls cs (snd (handleTwitterError e h)));
               hR = resetDailyCounterIfNeeded c' hN
           in monthlyCapExceeded hN \<and> monthlyCapResetTime hN = T
            \<and> canMakeReadRequest c' hN =
                (Returns (dailyReadAttempts hR < maxDailyReadAttempts hR),
                 hR\<lparr> monthlyCapExceeded := False, monthlyCapResetTime := 0 \<rparr>))"
proof -
  let ?h1 = "h\<lparr> monthlyCapExceeded := True, monthlyCapResetTime := T \<rparr>"
  let ?hN = "snd (handlerCalls cs ?h1)"
  have rec: "handleTwitterError e h = (Returns (), ?h1)"
    using assms(1,2) by (simp add: handleTwitterError_def orZero_def Let_def)
  have inv: "list_all (\<lambda>r. r = Returns False) (fst (handlerCalls cs ?h1))
       \<and> monthlyCapExceeded ?hN \<and> monthlyCapResetTime ?hN = T"
    using assms(2,3) by (intro handlerCalls_before_reset) simp_all
  have fin: "canMakeReadRequest c' ?hN =
     (Returns (dailyReadAttempts (resetDailyCounterIfNeeded c' ?hN) < maxDailyReadAttempts ?hN),
      (resetDailyCounterIfNeeded c' ?hN)\<lparr> monthlyCapExceeded := False, monthlyCapResetTime := 0 \<rparr>)"
    using inv assms(4) by (intro canMakeReadRequest_after_reset) simp_all
  from rec inv fin show ?thesis
    by (simp add: Let_def resetDailyCounterIfNeeded_frame)
qed

theorem monthly_cap_denies_until_reset_witness:
  "parseTwitterError (usageCapError (Some 1749081600)) = (True, Some 1749081600)
   \<and> validDate (1749081600 * 1000)
   \<and> nowMs (clockAt 1748952000000 ''2025-06-03'') div 1000 < 1749081600
   \<and> nowMs (clockAt 1748995200000 ''2025-06-04'') div 1000 < 1749081600
   \<and> 1749081600 \<le> nowMs (clockAt 1749081601000 ''2025-06-05'') div 1000
   \<and> fst (handlerCalls
        [CanMakeReadRequest (clockAt 1748952000000 ''2025-06-03''), IncrementReadAttempts,
         CanMakeReadRequest (clockAt 1748995200000 ''2025-06-04'')]
        (snd (handleTwitterError (usageCapError (Some 1749081600))
               (getInstance (clockAt 1748822400000 ''2025-06-02'')))))
       = [Returns False, Returns False]
   \<and> canMakeReadRequest (clockAt 1749081601000 ''2025-06-05'')
        (snd (handlerCalls
          [CanMakeReadRequest (clockAt 1748952000000 ''2025-06-03''), IncrementReadAttempts,
           CanMakeReadRequest (clockAt 1748995200000 ''2025-06-04'')]
          (snd (handleTwitterError (usageCapError (Some 1749081600))
                 (getInstance (clockAt 1748822400000 ''2025-06-02''))))))
       = (Returns True, \<lparr> monthlyCapExceeded = False, monthlyCapResetTime = 0,
            dailyReadAttempts = 0, lastResetDate = ''2025-06-05'', maxDailyReadAttempts = 50 \<rparr>)"
proof -
  have p: "parseTwitterError (usageCapError (Some 1749081600)) = (True, Some 1749081600)"
    by (simp add: parseTwitterError_def usageCapError_def)
  have v: "validDate (1749081600 * 1000)"
    by (simp add: validDate_def)
  have b: "\<forall>c. CanMakeReadRequest c \<in> set
        [CanMakeReadRequest (clockAt 1748952000000 ''2025-06-03''), IncrementReadAttempts,
         CanMakeReadRequest (clockAt 1748995200000 ''2025-06-04'')]
      \<longrightarrow> nowMs c div 1000 < 1749081600"
    by (auto simp: clockAt_def)
  have a: "1749081600 \<le> nowMs (clockAt 1749081601000 ''2025-06-05'') div 1000"
    by (simp add: clockAt_def)
  show ?thesis
    using monthly_cap_denies_until_reset
      [OF p v b a, of "getInstance (clockAt 1748822400000 ''2025-06-02'')"] p v a
    by (simp add: clockAt_def getInstance_def fieldDefaults_def resetDailyCounterIfNeeded_def
        canMakeReadRequest_def incrementReadAttempts_def Let_def)
qed

text \<open>
  Claim C10. When the monthly-cap error carries no reset time, \<^verbatim>\<open>handleTwitterError\<close>
  sets the flag with a reset time of 0, and the next \<^verbatim>\<open>canMakeReadRequest\<close>, at any time
  of the clock from the epoch on, clears the flag and is decided by the daily limit
  alone: the cap is never enforced.
\<close>

theorem absent_reset_time_cap_not_enforced:
  assumes "parseTwitterError e = (True, None)" and "0 \<le> nowMs c"
  shows "handleTwitterError e h =
           (Returns (), h\<lparr> monthlyCapExceeded := True, monthlyCapResetTime := 0 \<rparr>)
       \<and> (let h1 = snd (handleTwitterError e h); hR = resetDailyCounterIfNeeded c h1
          in canMakeReadRequest c h1 =
               (Returns (dailyReadAttempts hR < maxDailyReadAttempts hR),
                hR\<lparr> monthlyCapExceeded := False, monthlyCapResetTime := 0 \<rparr>))"
proof -
  let ?h1 = "h\<lparr> monthlyCapExceeded := True, monthlyCapResetTime := 0 \<rparr>"
  have rec: "handleTwitterError e h = (Returns (), ?h1)"
    using assms(1) by (simp add: handleTwitterError_def orZero_def validDate_def Let_def)
  have "0 \<le> nowMs c div 1000"
    using assms(2) by simp
  then have "canMakeReadRequest c ?h1 =
     (Returns (dailyReadAttempts (resetDailyCounterIfNeeded c ?h1) < maxDailyReadAttempts ?h1),
      (resetDailyCounterIfNeeded c ?h1)\<lparr> monthlyCapExceeded := False, monthlyCapResetTime := 0 \<rparr>)"
    by (intro canMakeReadRequest_after_reset) simp_all
  with rec show ?thesis
    by (simp add: Let_def resetDailyCounterIfNeeded_frame)
qed

theorem absent_reset_time_cap_not_enforced_witness:
  "parseTwitterError (usageCapError None) = (True, None)
   \<and> 0 \<le> nowMs (clockAt 1748822400001 ''2025-06-02'')
   \<and> handleTwitterError (usageCapError None) (getInstance (clockAt 1748822400000 ''2025-06-02''))
       = (Returns (), \<lparr> monthlyCapExceeded = True, monthlyCapResetTime = 0,
            dailyReadAttempts = 0, lastResetDate = ''2025-06-02'', maxDailyReadAttempts = 50 \<rparr>)
   \<and> canMakeReadRequest (clockAt 1748822400001 ''2025-06-02'')
        (snd (handleTwitterError (usageCapError None)
               (getInstance (clockAt 1748822400000 ''2025-06-02''))))
       = (Returns True, \<lparr> monthlyCapExceeded = False, monthlyCapResetTime = 0,
            dailyReadAttempts = 0, lastResetDate = ''2025-06-02'', maxDailyReadAttempts = 50 \<rparr>)"
proof -
  have p: "parseTwitterError (usageCapError None) = (True, None)"
    by (simp add: parseTwitterError_def usageCapError_def)
  have n: "0 \<le> nowMs (clockAt 1748822400001 ''2025-06-02'')"
    by (simp add: clockAt_def)
  show ?thesis
    using absent_reset_time_cap_not_enforced
      [OF p n, of "getInstance (clockAt 1748822400000 ''2025-06-02'')"] p n
    by (clarsimp simp: clockAt_def getInstance_def fieldDefaults_def
        resetDailyCounterIfNeeded_def Let_def)
qed

section \<open>Properties of the gate of attemptDM\<close>

lemma resetDailyCounterIfNeeded_dm_vars:
  "fst (resetDailyCounterIfNeeded_dm c (v, d)) =
     (if dmLastResetDate v \<noteq> today c then v\<lparr> dailyDMs := 0, dmLastResetDate := today c \<rparr> else v)"
  by (simp add: resetDailyCounterIfNeeded_dm_def Let_def)

lemma attemptDM_begin_state:
  "snd (attemptDM_begin c s) =
     s\<lparr> vars := fst (resetDailyCounterIfNeeded_dm c (vars s, files s)),
        files := snd (resetDailyCounterIfNeeded_dm c (vars s, files s)) \<rparr>"
  by (simp add: attemptDM_begin_def Let_def split: prod.splits)

lemma attemptDM_begin_exit:
  "fst (attemptDM_begin c s) =
     (if nowMs c - lastDMTime (vars s) < DM_INTERVAL
      then Some (ExitTooSoon (roundDiv (DM_INTERVAL - (nowMs c - lastDMTime (vars s))) 60000))
      else if dmLastResetDate (vars s) = today c \<and> DMS_PER_DAY_TARGET \<le> dailyDMs (vars s)
      then Some ExitDailyTarget
      else None)"
  by (simp add: attemptDM_begin_def resetDailyCounterIfNeeded_dm_def DMS_PER_DAY_TARGET_def
      Let_def split: prod.splits)

section \<open>The order of the quota checks\<close>

text \<open>
  Claim C1, as the code has it. No function makes the four checks of the claim in one
  place, and none returns a reason or a time to retry.
  \<^verbatim>\<open>canMakeReadRequest\<close> rolls the daily counter first, also on a call it then denies;
  next, with the cap flag set, it returns false before the reset time (or throws, when
  the reset time is no valid date) and clears the flag from the reset time on; last it
  returns whether the daily count is below the limit. It has no spacing check.
  The gate of \<^verbatim>\<open>attemptDM\<close> rolls \<^verbatim>\<open>dailyDMs\<close>, then stops when the last send is less
  than \<^verbatim>\<open>DM_INTERVAL\<close> ago, then stops when \<^verbatim>\<open>dailyDMs\<close> has reached the target, and
  otherwise starts the campaign. It never looks at the handler.
\<close>

theorem quota_checks_as_coded:
  "(case canMakeReadRequest c h of (r, h') \<Rightarrow>
      dailyReadAttempts h' = (if lastResetDate h \<noteq> today c then 0 else dailyReadAttempts h)
    \<and> lastResetDate h' = today c
    \<and> maxDailyReadAttempts h' = maxDailyReadAttempts h
    \<and> (monthlyCapExceeded h \<and> nowMs c div 1000 < monthlyCapResetTime h \<longrightarrow>
         r = (if validDate (monthlyCapResetTime h * 1000) then Returns False else Throws)
         \<and> monthlyCapExceeded h' \<and> monthlyCapResetTime h' = monthlyCapResetTime h)
    \<and> (monthlyCapExceeded h \<and> monthlyCapResetTime h \<le> nowMs c div 1000 \<longrightarrow>
         r = Returns (dailyReadAttempts h' < maxDailyReadAttempts h)
         \<and> \<not> monthlyCapExceeded h' \<and> monthlyCapResetTime h' = 0)
    \<and> (\<not> monthlyCapExceeded h \<longrightarrow>
         r = Returns (dailyReadAttempts h' < maxDailyReadAttempts h)
         \<and> \<not> monthlyCapExceeded h' \<and> monthlyCapResetTime h' = monthlyCapResetTime h))
   \<and> (case attemptDM_begin c s of (x, s') \<Rightarrow>
      dailyDMs (vars s') = (if dmLastResetDate (vars s) \<noteq> today c then 0 else dailyDMs (vars s))
    \<and> dmLastResetDate (vars s') = today c
    \<and> lastDMTime (vars s') = lastDMTime (vars s)
    \<and> sentDMs s' = sentDMs s \<and> limiter s' = limiter s
    \<and> (nowMs c - lastDMTime (vars s) < DM_INTERVAL \<longrightarrow>
         x = Some (ExitTooSoon (roundDiv (DM_INTERVAL - (nowMs c - lastDMTime (vars s))) 60000)))
    \<and> (DM_INTERVAL \<le> nowMs c - lastDMTime (vars s) \<and> DMS_PER_DAY_TARGET \<le> dailyDMs (vars s')
         \<longrightarrow> x = Some ExitDailyTarget)
    \<and> (DM_INTERVAL \<le> nowMs c - lastDMTime (vars s) \<and> dailyDMs (vars s') < DMS_PER_DAY_TARGET
         \<longrightarrow> x = None))"
proof -
  have handler: "case canMakeReadRequest c h of (r, h') \<Rightarrow>
      dailyReadAttempts h' = (if lastResetDate h \<noteq> today c then 0 else dailyReadAttempts h)
    \<and> lastResetDate h' = today c
    \<and> maxDailyReadAttempts h' = maxDailyReadAttempts h
    \<and> (monthlyCapExceeded h \<and> nowMs c div 1000 < monthlyCapResetTime h \<longrightarrow>
         r = (if validDate (monthlyCapResetTime h * 1000) then Returns False else Throws)
         \<and> monthlyCapExceeded h' \<and> monthlyCapResetTime h' = monthlyCapResetTime h)
    \<and> (monthlyCapExceeded h \<and> monthlyCapResetTime h \<le> nowMs c div 1000 \<longrightarrow>
         r = Returns (dailyReadAttempts h' < maxDailyReadAttempts h)
         \<and> \<not> monthlyCapExceeded h' \<and> monthlyCapResetTime h' = 0)
    \<and> (\<not> monthlyCapExceeded h \<longrightarrow>
         r = Returns (dailyReadAttempts h' < maxDailyReadAttempts h)
         \<and> \<not> monthlyCapExceeded h' \<and> monthlyCapResetTime h' = monthlyCapResetTime h)"
    by (simp add: canMakeReadRequest_def resetDailyCounterIfNeeded_def Let_def)
  obtain x s' where b: "attemptDM_begin c s = (x, s')"
    by (cases "attemptDM_begin c s")
  have x: "x = fst (attemptDM_begin c s)" and s': "s' = snd (attemptDM_begin c s)"
    using b by simp_all
  have v: "vars s' = fst (resetDailyCounterIfNeeded_dm c (vars s, files s))"
    by (simp add: s' attemptDM_begin_state)
  have gate: "dailyDMs (vars s') = (if dmLastResetDate (vars s) \<noteq> today c then 0 else dailyDMs (vars s))
    \<and> dmLastResetDate (vars s') = today c
    \<and> lastDMTime (vars s') = lastDMTime (vars s)
    \<and> sentDMs s' = sentDMs s \<and> limiter s' = limiter s"
    by (simp add: v resetDailyCounterIfNeeded_dm_vars) (simp add: s' attemptDM_begin_state)
  have exits: "(nowMs c - lastDMTime (vars s) < DM_INTERVAL \<longrightarrow>
         x = Some (ExitTooSoon (roundDiv (DM_INTERVAL - (nowMs c - lastDMTime (vars s))) 60000)))
    \<and> (DM_INTERVAL \<le> nowMs c - lastDMTime (vars s) \<and> DMS_PER_DAY_TARGET \<le> dailyDMs (vars s')
         \<longrightarrow> x = Some ExitDailyTarget)
    \<and> (DM_INTERVAL \<le> nowMs c - lastDMTime (vars s) \<and> dailyDMs (vars s') < DMS_PER_DAY_TARGET
         \<longrightarrow> x = None)"
    unfolding x by (auto simp: attemptDM_begin_exit v resetDailyCounterIfNeeded_dm_vars
        DMS_PER_DAY_TARGET_def)
  from handler gate exits show ?thesis
    by (simp add: b)
qed

theorem quota_checks_as_coded_witness:
  "(monthlyCapExceeded (cappedHandler 1749081600 ''2025-06-02'')
      \<and> nowMs (clockAt 1748952000000 ''2025-06-03'') div 1000
          < monthlyCapResetTime (cappedHandler 1749081600 ''2025-06-02'')
      \<and> canMakeReadRequest (clockAt 1748952000000 ''2025-06-03'')
           (cappedHandler 1749081600 ''2025-06-02'')
         = (Returns False, (cappedHandler 1749081600 ''2025-06-03'')\<lparr> dailyReadAttempts := 0 \<rparr>))
   \<and> (nowMs (clockAt 1748952000000 ''2025-06-03'') - lastDMTime
          \<lparr> lastDMTime = 1748951940000, dailyDMs = 3, dmLastResetDate = ''2025-06-03'' \<rparr>
        < DM_INTERVAL
      \<and> fst (attemptDM_begin (clockAt 1748952000000 ''2025-06-03'')
           (systemWith \<lparr> lastDMTime = 1748951940000, dailyDMs = 3,
              dmLastResetDate = ''2025-06-03'' \<rparr> Map.empty None)) = Some (ExitTooSoon 4))
   \<and> (monthlyCapExceeded (cappedHandler 1749081600 ''2025-06-02'')
      \<and> monthlyCapResetTime (cappedHandler 1749081600 ''2025-06-02'')
          \<le> nowMs (clockAt 1749124800000 ''2025-06-05'') div 1000
      \<and> canMakeReadRequest (clockAt 1749124800000 ''2025-06-05'')
           (cappedHandler 1749081600 ''2025-06-02'')
         = (Returns True, \<lparr> monthlyCapExceeded = False, monthlyCapResetTime = 0,
              dailyReadAttempts = 0, lastResetDate = ''2025-06-05'',
              maxDailyReadAttempts = 50 \<rparr>))
   \<and> (DM_INTERVAL \<le> nowMs (clockAt 1749124800000 ''2025-06-05'') - lastDMTime
          \<lparr> lastDMTime = 1749121200000, dailyDMs = 30, dmLastResetDate = ''2025-06-05'' \<rparr>
      \<and> fst (attemptDM_begin (clockAt 1749124800000 ''2025-06-05'')
           (systemWith \<lparr> lastDMTime = 1749121200000, dailyDMs = 30,
              dmLastResetDate = ''2025-06-05'' \<rparr> Map.empty None)) = Some ExitDailyTarget)
   \<and> (\<not> monthlyCapExceeded (getInstance (clockAt 1748822400000 ''2025-06-02''))
      \<and> canMakeReadRequest (clockAt 1748822400000 ''2025-06-02'')
           (getInstance (clockAt 1748822400000 ''2025-06-02''))
         = (Returns True, getInstance (clockAt 1748822400000 ''2025-06-02'')))
   \<and> (DM_INTERVAL \<le> nowMs (clockAt 1748822400000 ''2025-06-02'') - lastDMTime initialVars
      \<and> attemptDM_begin (clockAt 1748822400000 ''2025-06-02'')
           (systemWith initialVars Map.empty None)
         = (None, \<lparr> vars = \<lparr> lastDMTime = 0, dailyDMs = 0, dmLastResetDate = ''2025-06-02'' \<rparr>,
              sentDMs = Map.empty,
              files = freshDisk\<lparr> stateFile := Parsed \<lparr> savedLastDMTime = Some 0,
                savedDailyDMs = Some 0, savedLastResetDate = Some ''2025-06-02'' \<rparr> \<rparr>,
              limiter = None \<rparr>))"
  using
    quota_checks_as_coded [where c = "clockAt 1748952000000 ''2025-06-03''"
      and h = "cappedHandler 1749081600 ''2025-06-02''"
      and s = "systemWith \<lparr> lastDMTime = 1748951940000, dailyDMs = 3,
         dmLastResetDate = ''2025-06-03'' \<rparr> Map.empty None"]
    quota_checks_as_coded [where c = "clockAt 1749124800000 ''2025-06-05''"
      and h = "cappedHandler 1749081600 ''2025-06-02''"
      and s = "systemWith \<lparr> lastDMTime = 1749121200000, dailyDMs = 30,
         dmLastResetDate = ''2025-06-05'' \<rparr> Map.empty None"]
    quota_checks_as_coded [where c = "clockAt 1748822400000 ''2025-06-02''"
      and h = "getInstance (clockAt 1748822400000 ''2025-06-02'')"
      and s = "systemWith initialVars Map.empty None"]
  by (simp add: canMakeReadRequest_def resetDailyCounterIfNeeded_def cappedHandler_def
      clockAt_def validDate_def getInstance_def fieldDefaults_def
      attemptDM_begin_def resetDailyCounterIfNeeded_dm_def saveState_def ensureDirExists_def
      freshDisk_def systemWith_def initialVars_def DM_INTERVAL_def DMS_PER_DAY_TARGET_def
      roundDiv_def Let_def)

text \<open>
  Against C1 as stated: on 2025-06-03, with the cap recorded until 2025-06-05 and 7 reads
  counted for 2025-06-02, \<^verbatim>\<open>canMakeReadRequest\<close> denies for the monthly cap and has
  rolled the daily count to 0 all the same, so the roll is not the second check; at the
  same moment the gate of \<^verbatim>\<open>attemptDM\<close>, four hours after the last send and with 3 sends
  counted, starts a campaign although the handler's cap is set.
\<close>

theorem canAct_order_counterexample:
  "canMakeReadRequest (clockAt 1748952000000 ''2025-06-03'') (cappedHandler 1749081600 ''2025-06-02'')
     = (Returns False, (cappedHandler 1749081600 ''2025-06-03'')\<lparr> dailyReadAttempts := 0 \<rparr>)
   \<and> dailyReadAttempts (cappedHandler 1749081600 ''2025-06-02'') = 7
   \<and> fst (attemptDM_begin (clockAt 1748952000000 ''2025-06-03'')
        (systemWith \<lparr> lastDMTime = 1748937600000, dailyDMs = 3, dmLastResetDate = ''2025-06-03'' \<rparr>
           Map.empty (Some (cappedHandler 1749081600 ''2025-06-03'')))) = None"
  by (simp add: canMakeReadRequest_def resetDailyCounterIfNeeded_def cappedHandler_def
      clockAt_def validDate_def attemptDM_begin_exit systemWith_def DM_INTERVAL_def
      DMS_PER_DAY_TARGET_def Let_def)

section \<open>Properties of the campaign\<close>

lemma findAndSendDM_already_sent:
  assumes "findResult w = FindDone (Some u)" and "alreadySent l (userId u)"
  shows "findAndSendDM w (l, d) = (ExitAlreadySent (userId u), l, d)"
  using assms by (simp add: findAndSendDM_def)

lemma findAndSendDM_not_sent:
  assumes "\<forall>i. fst (findAndSendDM w (l, d)) \<noteq> ExitSent i"
  shows "snd (findAndSendDM w (l, d)) = (l, d)"
  using assms
  by (auto simp: findAndSendDM_def Let_def
      split: findResponse.splits option.splits generation.splits gameStatus.splits if_splits)

lemma findAndSendDM_sent:
  assumes "fst (findAndSendDM w (l, d)) = ExitSent i"
  shows "\<not> alreadySent l i
       \<and> snd (findAndSendDM w (l, d)) = (l(i \<mapsto> sentAt w), saveSentDMs (l(i \<mapsto> sentAt w)) d)"
  using assms
  by (auto simp: findAndSendDM_def Let_def
      split: findResponse.splits option.splits generation.splits gameStatus.splits if_splits)

lemma findAndSendDM_sent_iff:
  "fst (findAndSendDM w (l, d)) = ExitSent i \<longleftrightarrow>
     (\<exists>u t. findResult w = FindDone (Some u) \<and> userId u = i \<and> \<not> alreadySent l i
        \<and> generated w = GenText t \<and> 10 \<le> length t
        \<and> send_dm i t (transport w) = StatusDone)"
  by (auto simp: findAndSendDM_def Let_def
      split: findResponse.splits option.splits generation.splits gameStatus.splits if_splits)

lemma findAndSendDM_keeps_sent:
  assumes "alreadySent l i" and "sentAt w \<noteq> 0"
  shows "alreadySent (fst (snd (findAndSendDM w (l, d)))) i
       \<and> fst (findAndSendDM w (l, d)) \<noteq> ExitSent i"
proof (cases "\<exists>j. fst (findAndSendDM w (l, d)) = ExitSent j")
  case True
  then obtain j where j: "fst (findAndSendDM w (l, d)) = ExitSent j" ..
  from findAndSendDM_sent [OF j] assms show ?thesis
    by (auto simp: j alreadySent_def)
next
  case False
  then have "snd (findAndSendDM w (l, d)) = (l, d)"
    by (intro findAndSendDM_not_sent) simp
  with False assms show ?thesis by auto
qed

lemma findAndSendDMs_Cons:
  "fst (findAndSendDMs (w # ws) ld) =
     fst (findAndSendDM w ld) # fst (findAndSendDMs ws (snd (findAndSendDM w ld)))"
  by (simp split: prod.splits)

lemma findAndSendDMs_none_after_sent:
  assumes "alreadySent l i" and "\<forall>w \<in> set ws. sentAt w \<noteq> 0"
  shows "ExitSent i \<notin> set (fst (findAndSendDMs ws (l, d)))"
  using assms
proof (induction ws arbitrary: l d)
  case Nil
  then show ?case by simp
next
  case (Cons w ws)
  obtain x l' d' where r: "findAndSendDM w (l, d) = (x, l', d')"
    by (cases "findAndSendDM w (l, d)") auto
  from findAndSendDM_keeps_sent [of l i w d] Cons.prems r
  have "alreadySent l' i" and "x \<noteq> ExitSent i" by auto
  moreover have "ExitSent i \<notin> set (fst (findAndSendDMs ws (l', d')))"
    using \<open>alreadySent l' i\<close> Cons.prems by (intro Cons.IH) auto
  ultimately show ?case
    by (simp add: findAndSendDMs_Cons r del: findAndSendDMs.simps)
qed

lemma findAndSendDMs_sent_at_most_once:
  assumes "\<forall>w \<in> set ws. sentAt w \<noteq> 0"
  shows "length (filter (\<lambda>x. x = ExitSent i) (fst (findAndSendDMs ws (l, d)))) \<le> 1"
  using assms
proof (induction ws arbitrary: l d)
  case Nil
  then show ?case by simp
next
  case (Cons w ws)
  obtain x l' d' where r: "findAndSendDM w (l, d) = (x, l', d')"
    by (cases "findAndSendDM w (l, d)") auto
  show ?case
  proof (cases "x = ExitSent i")
    case True
    then have "snd (findAndSendDM w (l, d)) = (l(i \<mapsto> sentAt w), saveSentDMs (l(i \<mapsto> sentAt w)) d)"
      using findAndSendDM_sent [of w l d i] r by simp
    then have l': "l' = l(i \<mapsto> sentAt w)" using r by simp
    have "alreadySent l' i" using Cons.prems by (simp add: l' alreadySent_def)
    then have "ExitSent i \<notin> set (fst (findAndSendDMs ws (l', d')))"
      using Cons.prems by (intro findAndSendDMs_none_after_sent) auto
    then have "filter (\<lambda>x. x = ExitSent i) (fst (findAndSendDMs ws (l', d'))) = []"
      by (auto simp: filter_empty_conv)
    with True show ?thesis
      by (simp add: findAndSendDMs_Cons r del: findAndSendDMs.simps)
  next
    case False
    have "length (filter (\<lambda>x. x = ExitSent i) (fst (findAndSendDMs ws (l', d')))) \<le> 1"
      using Cons.prems by (intro Cons.IH) auto
    with False show ?thesis
      by (simp add: findAndSendDMs_Cons r del: findAndSendDMs.simps)
  qed
qed

lemma findAndSendDM_phases:
  "findAndSendDM w (l, d) =
     (case findAndSendDM_check (findResult w) l of
        Inl x \<Rightarrow> (x, l, d)
      | Inr u \<Rightarrow> findAndSendDM_send w u (l, d))"
  by (simp add: findAndSendDM_def findAndSendDM_check_def findAndSendDM_send_def
      split: findResponse.splits option.splits)

lemma findAndSendDM_send_writes:
  assumes "generated w = GenText t" and "10 \<le> length t"
    and "send_dm (userId u) t (transport w) = StatusDone"
  shows "findAndSendDM_send w u (l, d) =
     (ExitSent (userId u), l(userId u \<mapsto> sentAt w), saveSentDMs (l(userId u \<mapsto> sentAt w)) d)"
  using assms by (simp add: findAndSendDM_send_def Let_def)

lemma findAndSendDM_send_not_sent:
  assumes "\<forall>i. fst (findAndSendDM_send w u (l, d)) \<noteq> ExitSent i"
  shows "snd (findAndSendDM_send w u (l, d)) = (l, d)"
  using assms
  by (auto simp: findAndSendDM_send_def Let_def
      split: generation.splits gameStatus.splits if_splits)

lemma startDMCampaigns_Cons:
  "fst (startDMCampaigns (w # ws) ld) =
     fst (startDMCampaign w ld) # fst (startDMCampaigns ws (snd (startDMCampaign w ld)))"
  by (simp split: prod.splits)

lemma loadSentDMs_working_disk:
  assumes "dirExists d" and "writable d"
  shows "dirExists (snd (loadSentDMs (l, d))) \<and> writable (snd (loadSentDMs (l, d)))
       \<and> (sentFile d \<noteq> Garbled \<longrightarrow>
            sentFile (snd (loadSentDMs (l, d))) = Parsed (fst (loadSentDMs (l, d))))
       \<and> (\<forall>m. sentFile d = Parsed m \<longrightarrow> loadSentDMs (l, d) = (m, d))"
  using assms
  by (auto simp: loadSentDMs_def ensureDirExists_def saveSentDMs_def split: stored.splits)

lemma findAndSendDM_working_disk:
  assumes "dirExists d" and "writable d"
  shows "dirExists (snd (snd (findAndSendDM w (l, d))))
       \<and> writable (snd (snd (findAndSendDM w (l, d))))
       \<and> (sentFile d = Parsed l \<longrightarrow>
            sentFile (snd (snd (findAndSendDM w (l, d)))) = Parsed (fst (snd (findAndSendDM w (l, d)))))
       \<and> ((\<exists>i. fst (findAndSendDM w (l, d)) = ExitSent i) \<longrightarrow>
            sentFile (snd (snd (findAndSendDM w (l, d)))) = Parsed (fst (snd (findAndSendDM w (l, d)))))"
proof (cases "\<exists>i. fst (findAndSendDM w (l, d)) = ExitSent i")
  case True
  then obtain i where "fst (findAndSendDM w (l, d)) = ExitSent i" ..
  from findAndSendDM_sent [OF this] assms show ?thesis
    by (simp add: saveSentDMs_def)
next
  case False
  then have "snd (findAndSendDM w (l, d)) = (l, d)"
    by (intro findAndSendDM_not_sent) simp
  with False assms show ?thesis by simp
qed

text \<open>Once the file holds a recipient and the disk can be written, no later call records it.\<close>

lemma startDMCampaigns_none_after_sent:
  assumes "dirExists d" and "writable d" and "sentFile d = Parsed m" and "alreadySent m i"
    and "\<forall>w \<in> set ws. sentAt w \<noteq> 0"
  shows "ExitSent i \<notin> set (fst (startDMCampaigns ws (l, d)))"
  using assms
proof (induction ws arbitrary: l d m)
  case Nil
  then show ?case by simp
next
  case (Cons w ws)
  have ld: "loadSentDMs (l, d) = (m, d)"
    using Cons.prems by (simp add: loadSentDMs_def)
  obtain x l' d' where r: "findAndSendDM w (m, d) = (x, l', d')"
    by (cases "findAndSendDM w (m, d)") auto
  have c: "startDMCampaign w (l, d) = (x, l', d')"
    by (simp add: startDMCampaign_def ld r)
  from findAndSendDM_keeps_sent [of m i w d] Cons.prems r
  have k: "alreadySent l' i" and nx: "x \<noteq> ExitSent i" by auto
  from findAndSendDM_working_disk [of d w m] Cons.prems r
  have wd: "dirExists d'" "writable d'" "sentFile d' = Parsed l'" by auto
  have "ExitSent i \<notin> set (fst (startDMCampaigns ws (l', d')))"
    using wd k Cons.prems by (intro Cons.IH [of d' l']) auto
  with nx show ?case
    by (simp add: startDMCampaigns_Cons c del: startDMCampaigns.simps)
qed

lemma startDMCampaigns_sent_at_most_once:
  assumes "dirExists d" and "writable d" and "\<forall>w \<in> set ws. sentAt w \<noteq> 0"
  shows "length (filter (\<lambda>x. x = ExitSent i) (fst (startDMCampaigns ws (l, d)))) \<le> 1"
  using assms
proof (induction ws arbitrary: l d)
  case Nil
  then show ?case by simp
next
  case (Cons w ws)
  obtain l0 d0 where ld: "loadSentDMs (l, d) = (l0, d0)"
    by (cases "loadSentDMs (l, d)") auto
  from loadSentDMs_working_disk [of d l] Cons.prems ld
  have wd0: "dirExists d0" "writable d0" by auto
  obtain x l' d' where r: "findAndSendDM w (l0, d0) = (x, l', d')"
    by (cases "findAndSendDM w (l0, d0)") auto
  have c: "startDMCampaign w (l, d) = (x, l', d')"
    by (simp add: startDMCampaign_def ld r)
  from findAndSendDM_working_disk [of d0 w l0] wd0 r
  have wd: "dirExists d'" "writable d'"
    and sy: "(\<exists>j. x = ExitSent j) \<longrightarrow> sentFile d' = Parsed l'" by auto
  show ?case
  proof (cases "x = ExitSent i")
    case True
    from findAndSendDM_sent [of w l0 d0 i] r True
    have "l' = l0(i \<mapsto> sentAt w)" by simp
    then have "alreadySent l' i"
      using Cons.prems by (simp add: alreadySent_def)
    moreover from sy True have "sentFile d' = Parsed l'" by blast
    ultimately have "ExitSent i \<notin> set (fst (startDMCampaigns ws (l', d')))"
      using wd Cons.prems by (intro startDMCampaigns_none_after_sent [of d' l' i]) auto
    then have "filter (\<lambda>x. x = ExitSent i) (fst (startDMCampaigns ws (l', d'))) = []"
      by (auto simp: filter_empty_conv)
    with True show ?thesis
      by (simp add: startDMCampaigns_Cons c del: startDMCampaigns.simps)
  next
    case False
    have "length (filter (\<lambda>x. x = ExitSent i) (fst (startDMCampaigns ws (l', d')))) \<le> 1"
      using wd Cons.prems by (intro Cons.IH) auto
    with False show ?thesis
      by (simp add: startDMCampaigns_Cons c del: startDMCampaigns.simps)
  qed
qed

section \<open>The duplicate check and the write to the ledger\<close>

text \<open>
  Claim C6, as the code has it. There is no operation that records a recipient and fails
  on a duplicate. A run checks once, when it starts, on the ledger as it is then: it
  stops, leaving the ledger and its file as they were, when the recipient's entry has a
  time other than 0 or when the id has no entry and names a member of
  \<^verbatim>\<open>Object.prototype\<close>; otherwise it goes on. The write, reached when the text and the
  send have gone through, does not look at the ledger again: it sets the recipient's
  entry to the time of the send, whatever the ledger holds by then, and saves; a run
  that does not send leaves the ledger alone. A recipient is recorded at most once by
  runs that follow one another on the ledger in memory, and by calls of
  \<^verbatim>\<open>startDMCampaign(0)\<close> that follow one another while the directory exists and the
  file can be written (send times are not 0).
\<close>

theorem ledger_checked_at_start_written_unconditionally:
  assumes "\<forall>w' \<in> set ws. sentAt w' \<noteq> 0"
  shows "findAndSendDM w (l, d) =
           (case findAndSendDM_check (findResult w) l of
              Inl x \<Rightarrow> (x, l, d)
            | Inr u' \<Rightarrow> findAndSendDM_send w u' (l, d))
       \<and> (alreadySent l (userId u) \<longrightarrow>
            findAndSendDM_check (FindDone (Some u)) l = Inl (ExitAlreadySent (userId u)))
       \<and> (\<not> alreadySent l (userId u) \<longrightarrow> findAndSendDM_check (FindDone (Some u)) l = Inr u)
       \<and> (\<forall>t'. l i = Some t' \<longrightarrow> alreadySent l i = (t' \<noteq> 0))
       \<and> (l i = None \<longrightarrow> alreadySent l i = (i \<in> set objectPrototypeMembers))
       \<and> (findResult w = FindDone (Some u) \<and> alreadySent l (userId u) \<longrightarrow>
            findAndSendDM w (l, d) = (ExitAlreadySent (userId u), l, d))
       \<and> (generated w = GenText t \<and> 10 \<le> length t
            \<and> send_dm (userId u) t (transport w) = StatusDone \<longrightarrow>
            findAndSendDM_send w u (l, d) =
              (ExitSent (userId u), l(userId u \<mapsto> sentAt w),
               saveSentDMs (l(userId u \<mapsto> sentAt w)) d))
       \<and> ((\<forall>j. fst (findAndSendDM_send w u (l, d)) \<noteq> ExitSent j) \<longrightarrow>
            snd (findAndSendDM_send w u (l, d)) = (l, d))
       \<and> length (filter (\<lambda>x. x = ExitSent i) (fst (findAndSendDMs ws (l, d)))) \<le> 1
       \<and> (dirExists d \<and> writable d \<longrightarrow>
            length (filter (\<lambda>x. x = ExitSent i) (fst (startDMCampaigns ws (l, d)))) \<le> 1)"
proof -
  have a: "alreadySent l (userId u) \<longrightarrow>
            findAndSendDM_check (FindDone (Some u)) l = Inl (ExitAlreadySent (userId u))"
    and b: "\<not> alreadySent l (userId u) \<longrightarrow> findAndSendDM_check (FindDone (Some u)) l = Inr u"
    by (simp_all add: findAndSendDM_check_def)
  have c: "\<forall>t'. l i = Some t' \<longrightarrow> alreadySent l i = (t' \<noteq> 0)"
    and e: "l i = None \<longrightarrow> alreadySent l i = (i \<in> set objectPrototypeMembers)"
    by (simp_all add: alreadySent_def)
  have f: "findResult w = FindDone (Some u) \<and> alreadySent l (userId u) \<longrightarrow>
            findAndSendDM w (l, d) = (ExitAlreadySent (userId u), l, d)"
    by (simp add: findAndSendDM_already_sent)
  have g: "generated w = GenText t \<and> 10 \<le> length t
            \<and> send_dm (userId u) t (transport w) = StatusDone \<longrightarrow>
            findAndSendDM_send w u (l, d) =
              (ExitSent (userId u), l(userId u \<mapsto> sentAt w),
               saveSentDMs (l(userId u \<mapsto> sentAt w)) d)"
    by (simp add: findAndSendDM_send_writes)
  have h: "(\<forall>j. fst (findAndSendDM_send w u (l, d)) \<noteq> ExitSent j) \<longrightarrow>
            snd (findAndSendDM_send w u (l, d)) = (l, d)"
    using findAndSendDM_send_not_sent [of w u l d] by blast
  have k: "dirExists d \<and> writable d \<longrightarrow>
            length (filter (\<lambda>x. x = ExitSent i) (fst (startDMCampaigns ws (l, d)))) \<le> 1"
    using startDMCampaigns_sent_at_most_once [OF _ _ assms, of d i l] by blast
  from findAndSendDM_phases [of w l d] a b c e f g h k
    findAndSendDMs_sent_at_most_once [OF assms, of i l d]
  show ?thesis by blast
qed

theorem ledger_checked_at_start_written_unconditionally_witness:
  "sentAt (worldWith (ApiAnswers True) 1748952001000 1748952002000) \<noteq> 0
   \<and> sentAt (worldWith (ApiAnswers True) 1748952601000 1748952602000) \<noteq> 0
   \<and> alreadySent [userId someUser \<mapsto> 1748822400000] (userId someUser)
   \<and> findResult (worldWith (ApiAnswers True) 1748952001000 1748952002000) = FindDone (Some someUser)
   \<and> findAndSendDM (worldWith (ApiAnswers True) 1748952001000 1748952002000)
        ([userId someUser \<mapsto> 1748822400000], freshDisk)
       = (ExitAlreadySent ''1234567890'', [userId someUser \<mapsto> 1748822400000], freshDisk)
   \<and> \<not> alreadySent Map.empty (userId someUser)
   \<and> findAndSendDM_check (FindDone (Some someUser)) Map.empty = Inr someUser
   \<and> generated (worldWith (ApiAnswers True) 1748952001000 1748952002000)
       = GenText ''Really enjoyed your latest thread!''
   \<and> findAndSendDM_send (worldWith (ApiAnswers True) 1748952001000 1748952002000) someUser
        (Map.empty, freshDisk)
       = (ExitSent ''1234567890'', [''1234567890'' \<mapsto> 1748952001000],
          freshDisk\<lparr> sentFile := Parsed [''1234567890'' \<mapsto> 1748952001000] \<rparr>)
   \<and> findAndSendDM_send (worldWith (ApiAnswers False) 1748952001000 1748952002000) someUser
        (Map.empty, freshDisk)
       = (ExitSendFailed, Map.empty, freshDisk)
   \<and> fst (findAndSendDMs
        [worldWith (ApiAnswers True) 1748952001000 1748952002000,
         worldWith (ApiAnswers True) 1748952601000 1748952602000] (Map.empty, freshDisk))
       = [ExitSent ''1234567890'', ExitAlreadySent ''1234567890'']
   \<and> dirExists freshDisk \<and> writable freshDisk
   \<and> fst (startDMCampaigns
        [worldWith (ApiAnswers True) 1748952001000 1748952002000,
         worldWith (ApiAnswers True) 1748952601000 1748952602000] (Map.empty, freshDisk))
       = [ExitSent ''1234567890'', ExitAlreadySent ''1234567890'']"
proof -
  let ?w = "worldWith (ApiAnswers True) 1748952001000 1748952002000"
  let ?w' = "worldWith (ApiAnswers True) 1748952601000 1748952602000"
  let ?wf = "worldWith (ApiAnswers False) 1748952001000 1748952002000"
  have h: "\<forall>w' \<in> set [?w, ?w']. sentAt w' \<noteq> 0"
    by (simp add: worldWith_def)
  show ?thesis
    using h
      ledger_checked_at_start_written_unconditionally [OF h, where w = ?w and u = someUser
        and l = "[userId someUser \<mapsto> 1748822400000]" and d = freshDisk]
      ledger_checked_at_start_written_unconditionally [OF h, where w = ?w and u = someUser
        and l = Map.empty and d = freshDisk and i = "''1234567890''"
        and t = "''Really enjoyed your latest thread!''"]
      ledger_checked_at_start_written_unconditionally [OF h, where w = ?wf and u = someUser
        and l = Map.empty and d = freshDisk]
    by (simp add: worldWith_def someUser_def alreadySent_def objectPrototypeMembers_def
        findAndSendDM_def findAndSendDM_check_def findAndSendDM_send_def send_dm_def
        saveSentDMs_def freshDisk_def startDMCampaign_def loadSentDMs_def
        ensureDirExists_def Let_def)
qed

text \<open>
  Against C6 as stated. Two calls overlap on one recipient: both check before either
  writes, both send, and the second write replaces the entry the first made, so the
  recipient is recorded twice and the write on a ledger that holds the recipient neither
  fails nor leaves it unchanged. Two calls ten minutes apart on a disk that cannot be
  written both record the recipient, the second having loaded the file the first could
  not save. And a recipient whose id is \<^verbatim>\<open>constructor\<close> is taken for a duplicate on an
  empty ledger and never written to.
\<close>

theorem recipient_recorded_twice_counterexample:
  "overlappingCampaigns (worldWith (ApiAnswers True) 1748952001000 1748952002000)
      (worldWith (ApiAnswers True) 1748952003000 1748952004000) (Map.empty, freshDisk)
     = (ExitSent ''1234567890'', ExitSent ''1234567890'',
        [''1234567890'' \<mapsto> 1748952003000],
        freshDisk\<lparr> sentFile := Parsed [''1234567890'' \<mapsto> 1748952003000] \<rparr>)
   \<and> [''1234567890'' \<mapsto> (1748952001000::int)] ''1234567890'' = Some 1748952001000
   \<and> findAndSendDM_send (worldWith (ApiAnswers True) 1748952003000 1748952004000) someUser
        ([''1234567890'' \<mapsto> 1748952001000], freshDisk)
     = (ExitSent ''1234567890'', [''1234567890'' \<mapsto> 1748952003000],
        freshDisk\<lparr> sentFile := Parsed [''1234567890'' \<mapsto> 1748952003000] \<rparr>)
   \<and> fst (startDMCampaigns
        [worldWith (ApiAnswers True) 1748952001000 1748952002000,
         worldWith (ApiAnswers True) 1748952601000 1748952602000]
        (Map.empty, freshDisk\<lparr> writable := False, sentFile := Parsed Map.empty \<rparr>))
     = [ExitSent ''1234567890'', ExitSent ''1234567890'']
   \<and> findAndSendDM
        ((worldWith (ApiAnswers True) 1748952001000 1748952002000)
          \<lparr> findResult := FindDone (Some (someUser\<lparr> userId := ''constructor'' \<rparr>)) \<rparr>)
        (Map.empty, freshDisk)
     = (ExitAlreadySent ''constructor'', Map.empty, freshDisk)"
  by (simp add: overlappingCampaigns_def worldWith_def someUser_def alreadySent_def
      objectPrototypeMembers_def findAndSendDM_def findAndSendDM_check_def
      findAndSendDM_send_def send_dm_def saveSentDMs_def freshDisk_def startDMCampaign_def
      loadSentDMs_def ensureDirExists_def Let_def)

section \<open>Properties of attemptDM\<close>

lemma saveState_sentFile: "sentFile (saveState v d) = sentFile d"
  by (simp add: saveState_def ensureDirExists_def split: option.splits)

lemma saveState_stateFile:
  "stateFile (saveState v d) =
     (if writable d
      then Parsed \<lparr> savedLastDMTime = Some (lastDMTime v), savedDailyDMs = Some (dailyDMs v),
             savedLastResetDate = Some (dmLastResetDate v) \<rparr>
      else stateFile d)"
  by (simp add: saveState_def ensureDirExists_def)

lemma resetDailyCounterIfNeeded_dm_sentFile:
  "sentFile (snd (resetDailyCounterIfNeeded_dm c (v, d))) = sentFile d"
  by (simp add: resetDailyCounterIfNeeded_dm_def saveState_sentFile Let_def)

lemma attemptDM_begin_frame:
  "sentDMs (snd (attemptDM_begin c s)) = sentDMs s"
  "limiter (snd (attemptDM_begin c s)) = limiter s"
  "sentFile (files (snd (attemptDM_begin c s))) = sentFile (files s)"
  "lastDMTime (vars (snd (attemptDM_begin c s))) = lastDMTime (vars s)"
  by (simp_all add: attemptDM_begin_state resetDailyCounterIfNeeded_dm_sentFile
      resetDailyCounterIfNeeded_dm_vars)

lemma attemptDM_resume_frame:
  "limiter (snd (attemptDM_resume w s)) = limiter s"
  "sentDMs (snd (attemptDM_resume w s)) = fst (snd (startDMCampaign w (sentDMs s, files s)))"
  "sentFile (files (snd (attemptDM_resume w s))) =
     sentFile (snd (snd (startDMCampaign w (sentDMs s, files s))))"
  "fst (attemptDM_resume w s) = ExitRan (fst (startDMCampaign w (sentDMs s, files s)))"
  "dailyDMs (vars (snd (attemptDM_resume w s))) = dailyDMs (vars s) + 1"
  "lastDMTime (vars (snd (attemptDM_resume w s))) = doneAt w"
  by (simp_all add: attemptDM_resume_def saveState_sentFile Let_def split: prod.splits)

lemma attemptDM_cases:
  "attemptDM c w s =
     (case fst (attemptDM_begin c s) of
        Some x \<Rightarrow> (x, snd (attemptDM_begin c s))
      | None \<Rightarrow> attemptDM_resume w (snd (attemptDM_begin c s)))"
  by (simp add: attemptDM_def split: prod.splits option.splits)

lemma loadSentDMs_in_sync:
  assumes "sentFile d = Parsed l"
  shows "loadSentDMs (l, d) = (l, d)"
  using assms by (simp add: loadSentDMs_def)

lemma attemptDM_begin_limiter:
  "attemptDM_begin c (s\<lparr> limiter := m \<rparr>) =
     (fst (attemptDM_begin c s), (snd (attemptDM_begin c s))\<lparr> limiter := m \<rparr>)"
  by (simp add: attemptDM_begin_def Let_def split: prod.splits)

lemma attemptDM_resume_limiter:
  "attemptDM_resume w (s\<lparr> limiter := m \<rparr>) =
     (fst (attemptDM_resume w s), (snd (attemptDM_resume w s))\<lparr> limiter := m \<rparr>)"
  by (simp add: attemptDM_resume_def Let_def split: prod.splits)

lemma attemptDM_limiter:
  "attemptDM c w (s\<lparr> limiter := m \<rparr>) =
     (fst (attemptDM c w s), (snd (attemptDM c w s))\<lparr> limiter := m \<rparr>)"
  by (simp add: attemptDM_cases attemptDM_begin_limiter attemptDM_resume_limiter
      split: option.splits)

section \<open>What an attempt writes\<close>

text \<open>
  Claim C2, as the code has it by design. An attempt adds an entry to the ledger only
  when the campaign ends with a send, and then the entry of that recipient, who was not
  in the ledger; an attempt that ends otherwise leaves the ledger as \<^verbatim>\<open>loadSentDMs\<close>
  loaded it at the start of the campaign, which is the ledger it had when the file
  agrees with memory; an attempt stopped by the gate does not touch the ledger at all.
  No attempt records a provider cap: the handler is the same after every attempt.
  Nothing is said here about \<^verbatim>\<open>dailyDMs\<close> and \<^verbatim>\<open>lastDMTime\<close>.
\<close>

theorem attempt_writes_ledger_only_when_sent:
  "(case attemptDM c w s of (x, s') \<Rightarrow>
      limiter s' = limiter s
    \<and> (x = ExitDailyTarget \<or> (\<exists>m. x = ExitTooSoon m) \<longrightarrow>
         sentDMs s' = sentDMs s \<and> sentFile (files s') = sentFile (files s))
    \<and> (\<forall>y. x = ExitRan y \<and> (\<forall>i. y \<noteq> ExitSent i) \<longrightarrow>
         (sentDMs s', sentFile (files s'))
           = (fst (loadSentDMs (sentDMs s, files (snd (attemptDM_begin c s)))),
              sentFile (snd (loadSentDMs (sentDMs s, files (snd (attemptDM_begin c s)))))))
    \<and> (\<forall>y. x = ExitRan y \<and> (\<forall>i. y \<noteq> ExitSent i) \<and> sentFile (files s) = Parsed (sentDMs s)
         \<longrightarrow> sentDMs s' = sentDMs s \<and> sentFile (files s') = sentFile (files s))
    \<and> (\<forall>i. x = ExitRan (ExitSent i) \<longrightarrow>
         \<not> alreadySent (fst (loadSentDMs (sentDMs s, files (snd (attemptDM_begin c s))))) i
         \<and> sentDMs s'
             = (fst (loadSentDMs (sentDMs s, files (snd (attemptDM_begin c s)))))(i \<mapsto> sentAt w)))"
proof -
  let ?s1 = "snd (attemptDM_begin c s)"
  let ?ld = "loadSentDMs (sentDMs s, files ?s1)"
  show ?thesis
  proof (cases "fst (attemptDM_begin c s)")
    case (Some x)
    then have r: "attemptDM c w s = (x, ?s1)"
      by (simp add: attemptDM_cases)
    from Some have "x = ExitDailyTarget \<or> (\<exists>m. x = ExitTooSoon m)"
      by (auto simp: attemptDM_begin_exit split: if_splits)
    then show ?thesis
      by (auto simp: r attemptDM_begin_frame)
  next
    case None
    then have r: "attemptDM c w s = attemptDM_resume w ?s1"
      by (simp add: attemptDM_cases)
    obtain l0 d0 where ld: "?ld = (l0, d0)"
      by (cases ?ld) auto
    let ?y = "fst (findAndSendDM w (l0, d0))"
    have x: "fst (attemptDM c w s) = ExitRan ?y"
      by (simp add: r attemptDM_resume_frame startDMCampaign_def attemptDM_begin_frame ld)
    have l': "sentDMs (snd (attemptDM c w s)) = fst (snd (findAndSendDM w (l0, d0)))"
      by (simp add: r attemptDM_resume_frame startDMCampaign_def attemptDM_begin_frame ld)
    have f': "sentFile (files (snd (attemptDM c w s))) = sentFile (snd (snd (findAndSendDM w (l0, d0))))"
      by (simp add: r attemptDM_resume_frame startDMCampaign_def attemptDM_begin_frame ld)
    have lim: "limiter (snd (attemptDM c w s)) = limiter s"
      by (simp add: r attemptDM_resume_frame attemptDM_begin_frame)
    have notsent: "(\<forall>i. ?y \<noteq> ExitSent i) \<longrightarrow> snd (findAndSendDM w (l0, d0)) = (l0, d0)"
      using findAndSendDM_not_sent [of w l0 d0] by blast
    have sent: "\<forall>i. ?y = ExitSent i \<longrightarrow> \<not> alreadySent l0 i
        \<and> snd (findAndSendDM w (l0, d0)) = (l0(i \<mapsto> sentAt w), saveSentDMs (l0(i \<mapsto> sentAt w)) d0)"
      using findAndSendDM_sent [of w l0 d0] by blast
    have sync: "sentFile (files s) = Parsed (sentDMs s) \<longrightarrow> l0 = sentDMs s \<and> sentFile d0 = sentFile (files s)"
    proof
      assume p: "sentFile (files s) = Parsed (sentDMs s)"
      then have "sentFile (files ?s1) = Parsed (sentDMs s)"
        by (simp add: attemptDM_begin_frame)
      then have "?ld = (sentDMs s, files ?s1)"
        by (rule loadSentDMs_in_sync)
      with ld show "l0 = sentDMs s \<and> sentFile d0 = sentFile (files s)"
        by (auto simp: attemptDM_begin_frame)
    qed
    obtain x' s' where xs: "attemptDM c w s = (x', s')"
      by (cases "attemptDM c w s") auto
    from x l' f' lim notsent sent sync show ?thesis
      by (auto simp: xs ld)
  qed
qed

lemmas attempt_defs =
  attemptDM_def attemptDM_begin_def attemptDM_resume_def startDMCampaign_def loadSentDMs_def
  findAndSendDM_def send_dm_def saveSentDMs_def saveState_def ensureDirExists_def
  resetDailyCounterIfNeeded_dm_def alreadySent_def objectPrototypeMembers_def roundDiv_def
  DM_INTERVAL_def
  DMS_PER_DAY_TARGET_def

lemmas example_defs =
  clockAt_def worldWith_def systemWith_def someUser_def freshDisk_def usageCapError_def
  cappedHandler_def initialVars_def

theorem attempt_writes_ledger_only_when_sent_witness:
  "attemptDM (clockAt 1748952000000 ''2025-06-03'')
      (worldWith (ApiAnswers True) 1748952001000 1748952002000)
      (systemWith \<lparr> lastDMTime = 1748951940000, dailyDMs = 3, dmLastResetDate = ''2025-06-03'' \<rparr>
         Map.empty None)
     = (ExitTooSoon 4,
        systemWith \<lparr> lastDMTime = 1748951940000, dailyDMs = 3, dmLastResetDate = ''2025-06-03'' \<rparr>
          Map.empty None)
   \<and> fst (attemptDM (clockAt 1748952000000 ''2025-06-03'')
        (worldWith (ApiAnswers False) 1748952001000 1748952002000)
        ((systemWith \<lparr> lastDMTime = 1748937600000, dailyDMs = 3,
            dmLastResetDate = ''2025-06-03'' \<rparr> [''42'' \<mapsto> 1748822400000] None)
          \<lparr> files := freshDisk\<lparr> sentFile := Parsed [''42'' \<mapsto> 1748822400000] \<rparr> \<rparr>))
       = ExitRan ExitSendFailed
   \<and> sentDMs (snd (attemptDM (clockAt 1748952000000 ''2025-06-03'')
        (worldWith (ApiAnswers False) 1748952001000 1748952002000)
        ((systemWith \<lparr> lastDMTime = 1748937600000, dailyDMs = 3,
            dmLastResetDate = ''2025-06-03'' \<rparr> [''42'' \<mapsto> 1748822400000] None)
          \<lparr> files := freshDisk\<lparr> sentFile := Parsed [''42'' \<mapsto> 1748822400000] \<rparr> \<rparr>)))
       = [''42'' \<mapsto> 1748822400000]
   \<and> fst (attemptDM (clockAt 1748952000000 ''2025-06-03'')
        (worldWith (ApiAnswers True) 1748952001000 1748952002000)
        (systemWith \<lparr> lastDMTime = 1748937600000, dailyDMs = 3,
            dmLastResetDate = ''2025-06-03'' \<rparr> Map.empty None))
       = ExitRan (ExitSent ''1234567890'')
   \<and> sentDMs (snd (attemptDM (clockAt 1748952000000 ''2025-06-03'')
        (worldWith (ApiAnswers True) 1748952001000 1748952002000)
        (systemWith \<lparr> lastDMTime = 1748937600000, dailyDMs = 3,
            dmLastResetDate = ''2025-06-03'' \<rparr> Map.empty None)))
       = [''1234567890'' \<mapsto> 1748952001000]"
  using
    attempt_writes_ledger_only_when_sent [where c = "clockAt 1748952000000 ''2025-06-03''"
      and w = "worldWith (ApiAnswers True) 1748952001000 1748952002000"
      and s = "systemWith \<lparr> lastDMTime = 1748951940000, dailyDMs = 3,
         dmLastResetDate = ''2025-06-03'' \<rparr> Map.empty None"]
    attempt_writes_ledger_only_when_sent [where c = "clockAt 1748952000000 ''2025-06-03''"
      and w = "worldWith (ApiAnswers False) 1748952001000 1748952002000"
      and s = "(systemWith \<lparr> lastDMTime = 1748937600000, dailyDMs = 3,
            dmLastResetDate = ''2025-06-03'' \<rparr> [''42'' \<mapsto> 1748822400000] None)
          \<lparr> files := freshDisk\<lparr> sentFile := Parsed [''42'' \<mapsto> 1748822400000] \<rparr> \<rparr>"]
    attempt_writes_ledger_only_when_sent [where c = "clockAt 1748952000000 ''2025-06-03''"
      and w = "worldWith (ApiAnswers True) 1748952001000 1748952002000"
      and s = "systemWith \<lparr> lastDMTime = 1748937600000, dailyDMs = 3,
            dmLastResetDate = ''2025-06-03'' \<rparr> Map.empty None"]
  by (simp add: attempt_defs example_defs Let_def)

text \<open>
  Against C2 as stated: the transport throws the provider's monthly-cap error, the
  campaign ends with the send failed, and \<^verbatim>\<open>attemptDM\<close> has counted a send all the same
  (\<^verbatim>\<open>dailyDMs\<close> from 3 to 4, \<^verbatim>\<open>lastDMTime\<close> set), while the handler, which would
  set its flag if it were given the error, is left as it was.
\<close>

theorem failed_attempt_spends_quota_counterexample:
  "fst (attemptDM (clockAt 1748952000000 ''2025-06-03'')
        (worldWith (ApiThrows (usageCapError (Some 1749081600))) 1748952001000 1748952002000)
        (systemWith \<lparr> lastDMTime = 1748937600000, dailyDMs = 3,
            dmLastResetDate = ''2025-06-03'' \<rparr> Map.empty
           (Some (getInstance (clockAt 1748822400000 ''2025-06-02'')))))
     = ExitRan ExitSendFailed
   \<and> vars (snd (attemptDM (clockAt 1748952000000 ''2025-06-03'')
        (worldWith (ApiThrows (usageCapError (Some 1749081600))) 1748952001000 1748952002000)
        (systemWith \<lparr> lastDMTime = 1748937600000, dailyDMs = 3,
            dmLastResetDate = ''2025-06-03'' \<rparr> Map.empty
           (Some (getInstance (clockAt 1748822400000 ''2025-06-02''))))))
     = \<lparr> lastDMTime = 1748952002000, dailyDMs = 4, dmLastResetDate = ''2025-06-03'' \<rparr>
   \<and> limiter (snd (attemptDM (clockAt 1748952000000 ''2025-06-03'')
        (worldWith (ApiThrows (usageCapError (Some 1749081600))) 1748952001000 1748952002000)
        (systemWith \<lparr> lastDMTime = 1748937600000, dailyDMs = 3,
            dmLastResetDate = ''2025-06-03'' \<rparr> Map.empty
           (Some (getInstance (clockAt 1748822400000 ''2025-06-02''))))))
     = Some (getInstance (clockAt 1748822400000 ''2025-06-02''))
   \<and> monthlyCapExceeded (getInstance (clockAt 1748822400000 ''2025-06-02'')) = False
   \<and> monthlyCapExceeded (snd (handleTwitterError (usageCapError (Some 1749081600))
        (getInstance (clockAt 1748822400000 ''2025-06-02'')))) = True"
  by (simp add: attempt_defs example_defs getInstance_def fieldDefaults_def
      resetDailyCounterIfNeeded_def handleTwitterError_def parseTwitterError_def orZero_def
      validDate_def Let_def)

section \<open>The HTTP endpoints\<close>

text \<open>
  Claim C5, as the code has it. A request for /send-dm calls \<^verbatim>\<open>attemptDM\<close>, the
  function the scheduler calls, and answers 200 with the same text whatever came of it.
  The spacing check and the daily target are in force: when either stops the attempt,
  nothing is sent, and the ledger, its file and \<^verbatim>\<open>lastDMTime\<close> stay as they were. The
  handler's monthly cap plays no part: the attempt is the same with any handler state.
\<close>

theorem send_dm_endpoint_is_gated_attempt:
  "server ''/send-dm'' c w s =
     (\<lparr> statusCode = 200, responseBody = PlainText ''DM attempt completed'' \<rparr>,
      snd (attemptDM c w s))
   \<and> (nowMs c - lastDMTime (vars s) < DM_INTERVAL \<longrightarrow>
        attemptDM c w s =
          (ExitTooSoon (roundDiv (DM_INTERVAL - (nowMs c - lastDMTime (vars s))) 60000),
           snd (attemptDM_begin c s)))
   \<and> (DM_INTERVAL \<le> nowMs c - lastDMTime (vars s) \<and> dmLastResetDate (vars s) = today c
        \<and> DMS_PER_DAY_TARGET \<le> dailyDMs (vars s) \<longrightarrow>
        attemptDM c w s = (ExitDailyTarget, snd (attemptDM_begin c s)))
   \<and> sentDMs (snd (attemptDM_begin c s)) = sentDMs s
   \<and> sentFile (files (snd (attemptDM_begin c s))) = sentFile (files s)
   \<and> lastDMTime (vars (snd (attemptDM_begin c s))) = lastDMTime (vars s)
   \<and> attemptDM c w (s\<lparr> limiter := m \<rparr>) =
        (fst (attemptDM c w s), (snd (attemptDM c w s))\<lparr> limiter := m \<rparr>)"
proof -
  have "server ''/send-dm'' c w s =
     (\<lparr> statusCode = 200, responseBody = PlainText ''DM attempt completed'' \<rparr>,
      snd (attemptDM c w s))"
    by (simp add: server_def split: prod.splits)
  moreover have "nowMs c - lastDMTime (vars s) < DM_INTERVAL \<longrightarrow>
        attemptDM c w s =
          (ExitTooSoon (roundDiv (DM_INTERVAL - (nowMs c - lastDMTime (vars s))) 60000),
           snd (attemptDM_begin c s))"
    by (simp add: attemptDM_cases attemptDM_begin_exit)
  moreover have "DM_INTERVAL \<le> nowMs c - lastDMTime (vars s) \<and> dmLastResetDate (vars s) = today c
        \<and> DMS_PER_DAY_TARGET \<le> dailyDMs (vars s) \<longrightarrow>
        attemptDM c w s = (ExitDailyTarget, snd (attemptDM_begin c s))"
    by (simp add: attemptDM_cases attemptDM_begin_exit)
  ultimately show ?thesis
    by (simp add: attemptDM_begin_frame attemptDM_limiter)
qed

theorem send_dm_endpoint_is_gated_attempt_witness:
  "nowMs (clockAt 1748952000000 ''2025-06-03'')
      - lastDMTime \<lparr> lastDMTime = 1748951940000, dailyDMs = 3, dmLastResetDate = ''2025-06-03'' \<rparr>
     < DM_INTERVAL
   \<and> attemptDM (clockAt 1748952000000 ''2025-06-03'')
        (worldWith (ApiAnswers True) 1748952001000 1748952002000)
        (systemWith \<lparr> lastDMTime = 1748951940000, dailyDMs = 3,
           dmLastResetDate = ''2025-06-03'' \<rparr> Map.empty None)
       = (ExitTooSoon 4,
          systemWith \<lparr> lastDMTime = 1748951940000, dailyDMs = 3,
            dmLastResetDate = ''2025-06-03'' \<rparr> Map.empty None)
   \<and> DM_INTERVAL \<le> nowMs (clockAt 1748952000000 ''2025-06-03'')
      - lastDMTime \<lparr> lastDMTime = 1748948400000, dailyDMs = 30, dmLastResetDate = ''2025-06-03'' \<rparr>
   \<and> DMS_PER_DAY_TARGET
       \<le> dailyDMs \<lparr> lastDMTime = 1748948400000, dailyDMs = 30, dmLastResetDate = ''2025-06-03'' \<rparr>
   \<and> attemptDM (clockAt 1748952000000 ''2025-06-03'')
        (worldWith (ApiAnswers True) 1748952001000 1748952002000)
        (systemWith \<lparr> lastDMTime = 1748948400000, dailyDMs = 30,
           dmLastResetDate = ''2025-06-03'' \<rparr> Map.empty None)
       = (ExitDailyTarget,
          systemWith \<lparr> lastDMTime = 1748948400000, dailyDMs = 30,
            dmLastResetDate = ''2025-06-03'' \<rparr> Map.empty None)"
  using
    send_dm_endpoint_is_gated_attempt [where c = "clockAt 1748952000000 ''2025-06-03''"
      and w = "worldWith (ApiAnswers True) 1748952001000 1748952002000"
      and s = "systemWith \<lparr> lastDMTime = 1748951940000, dailyDMs = 3,
           dmLastResetDate = ''2025-06-03'' \<rparr> Map.empty None"]
    send_dm_endpoint_is_gated_attempt [where c = "clockAt 1748952000000 ''2025-06-03''"
      and w = "worldWith (ApiAnswers True) 1748952001000 1748952002000"
      and s = "systemWith \<lparr> lastDMTime = 1748948400000, dailyDMs = 30,
           dmLastResetDate = ''2025-06-03'' \<rparr> Map.empty None"]
  by (simp add: attempt_defs example_defs Let_def)

text \<open>
  Against C5 as stated: a request one minute after the last send, and a request with the
  daily target reached, are answered 200 and change nothing, so neither check is
  bypassed; and a request four hours after the last send goes through and records the
  recipient although the handler's cap is set and its reset time not yet reached.
\<close>

theorem manual_trigger_counterexample:
  "server ''/send-dm'' (clockAt 1748952000000 ''2025-06-03'')
      (worldWith (ApiAnswers True) 1748952001000 1748952002000)
      (systemWith \<lparr> lastDMTime = 1748951940000, dailyDMs = 3, dmLastResetDate = ''2025-06-03'' \<rparr>
         Map.empty None)
     = (\<lparr> statusCode = 200, responseBody = PlainText ''DM attempt completed'' \<rparr>,
        systemWith \<lparr> lastDMTime = 1748951940000, dailyDMs = 3, dmLastResetDate = ''2025-06-03'' \<rparr>
          Map.empty None)
   \<and> server ''/send-dm'' (clockAt 1748952000000 ''2025-06-03'')
      (worldWith (ApiAnswers True) 1748952001000 1748952002000)
      (systemWith \<lparr> lastDMTime = 1748948400000, dailyDMs = 30, dmLastResetDate = ''2025-06-03'' \<rparr>
         Map.empty None)
     = (\<lparr> statusCode = 200, responseBody = PlainText ''DM attempt completed'' \<rparr>,
        systemWith \<lparr> lastDMTime = 1748948400000, dailyDMs = 30, dmLastResetDate = ''2025-06-03'' \<rparr>
          Map.empty None)
   \<and> monthlyCapExceeded (cappedHandler 1749081600 ''2025-06-03'')
   \<and> nowMs (clockAt 1748952000000 ''2025-06-03'') div 1000
       < monthlyCapResetTime (cappedHandler 1749081600 ''2025-06-03'')
   \<and> sentDMs (snd (server ''/send-dm'' (clockAt 1748952000000 ''2025-06-03'')
        (worldWith (ApiAnswers True) 1748952001000 1748952002000)
        (systemWith \<lparr> lastDMTime = 1748937600000, dailyDMs = 3,
            dmLastResetDate = ''2025-06-03'' \<rparr> Map.empty
           (Some (cappedHandler 1749081600 ''2025-06-03'')))))
       = [''1234567890'' \<mapsto> 1748952001000]"
  by (simp add: server_def attempt_defs example_defs Let_def)

text \<open>
  Claim C8. A request for /reset sets \<^verbatim>\<open>dailyDMs\<close> to 0 and answers 200. The other
  variables, the ledger and its file, and the handler with its monthly cap are as before;
  the state file is rewritten with the variables as they now are when the disk can be
  written, and left alone otherwise.
\<close>

theorem reset_endpoint_clears_only_daily_count:
  "fst (server ''/reset'' c w s) = \<lparr> statusCode = 200, responseBody = PlainText ''Counter reset'' \<rparr>
   \<and> vars (snd (server ''/reset'' c w s)) = (vars s)\<lparr> dailyDMs := 0 \<rparr>
   \<and> dailyDMs (vars (snd (server ''/reset'' c w s))) = 0
   \<and> lastDMTime (vars (snd (server ''/reset'' c w s))) = lastDMTime (vars s)
   \<and> dmLastResetDate (vars (snd (server ''/reset'' c w s))) = dmLastResetDate (vars s)
   \<and> sentDMs (snd (server ''/reset'' c w s)) = sentDMs s
   \<and> sentFile (files (snd (server ''/reset'' c w s))) = sentFile (files s)
   \<and> limiter (snd (server ''/reset'' c w s)) = limiter s
   \<and> stateFile (files (snd (server ''/reset'' c w s))) =
        (if writable (files s)
         then Parsed \<lparr> savedLastDMTime = Some (lastDMTime (vars s)), savedDailyDMs = Some 0,
                savedLastResetDate = Some (dmLastResetDate (vars s)) \<rparr>
         else stateFile (files s))"
  by (simp add: server_def Let_def saveState_sentFile saveState_stateFile)

section \<open>Startup\<close>

text \<open>
  Claim C9. With no state file, or with one that cannot be read or parsed, \<^verbatim>\<open>main\<close>
  starts the process with the default variables; it starts it in every case. With no
  ledger file, or with one that cannot be read or parsed, the first load of the ledger
  gives the empty ledger, and a ledger file that cannot be read or parsed gives the empty
  ledger whatever memory held.
\<close>

theorem missing_or_corrupt_files_give_defaults:
  "(stateFile d = Absent \<or> stateFile d = Garbled \<longrightarrow>
      main d = Runs \<lparr> vars = initialVars, sentDMs = Map.empty, files = d, limiter = None \<rparr>)
   \<and> (\<exists>s. main d = Runs s)
   \<and> (sentFile d = Absent \<or> sentFile d = Garbled \<longrightarrow>
        fst (loadSentDMs (Map.empty, d)) = Map.empty)
   \<and> (sentFile d = Garbled \<longrightarrow> fst (loadSentDMs (l, d)) = Map.empty)"
  by (auto simp: main_def loadState_def loadSentDMs_def split: option.splits)

theorem missing_or_corrupt_files_give_defaults_witness:
  "stateFile freshDisk = Absent
   \<and> main freshDisk
       = Runs \<lparr> vars = \<lparr> lastDMTime = 0, dailyDMs = 0, dmLastResetDate = [] \<rparr>,
                sentDMs = Map.empty, files = freshDisk, limiter = None \<rparr>
   \<and> stateFile (freshDisk\<lparr> stateFile := Garbled, sentFile := Garbled \<rparr>) = Garbled
   \<and> main (freshDisk\<lparr> stateFile := Garbled, sentFile := Garbled \<rparr>)
       = Runs \<lparr> vars = \<lparr> lastDMTime = 0, dailyDMs = 0, dmLastResetDate = [] \<rparr>,
                sentDMs = Map.empty,
                files = freshDisk\<lparr> stateFile := Garbled, sentFile := Garbled \<rparr>,
                limiter = None \<rparr>
   \<and> sentFile freshDisk = Absent
   \<and> fst (loadSentDMs (Map.empty, freshDisk)) = Map.empty
   \<and> sentFile (freshDisk\<lparr> stateFile := Garbled, sentFile := Garbled \<rparr>) = Garbled
   \<and> fst (loadSentDMs ([''42'' \<mapsto> 1748822400000],
        freshDisk\<lparr> stateFile := Garbled, sentFile := Garbled \<rparr>)) = Map.empty"
  using
    missing_or_corrupt_files_give_defaults [where d = freshDisk]
    missing_or_corrupt_files_give_defaults [where
      d = "freshDisk\<lparr> stateFile := Garbled, sentFile := Garbled \<rparr>"
      and l = "[''42'' \<mapsto> 1748822400000]"]
  by (simp add: freshDisk_def initialVars_def)

section \<open>The spacing between sends\<close>

text \<open>
  Claim C7, at the input where the code departs from it. With the constants of the
  source (a target of 30 a day, an interval of 300000 ms) and a send recorded at some
  time, the gate passes ten minutes later and a second message is sent; it is at four
  minutes that the gate stops the attempt, and at 25 minutes it passes.
\<close>

theorem ten_minutes_after_a_send:
  "DM_INTERVAL = 300000
   \<and> DMS_PER_DAY_TARGET = 30
   \<and> attemptDM_begin (clockAt (1748822400000 + 10 * 60 * 1000) ''2025-06-02'')
        (systemWith \<lparr> lastDMTime = 1748822400000, dailyDMs = 1,
           dmLastResetDate = ''2025-06-02'' \<rparr> [''42'' \<mapsto> 1748822400000] None)
       = (None,
          systemWith \<lparr> lastDMTime = 1748822400000, dailyDMs = 1,
            dmLastResetDate = ''2025-06-02'' \<rparr> [''42'' \<mapsto> 1748822400000] None)
   \<and> fst (attemptDM (clockAt (1748822400000 + 10 * 60 * 1000) ''2025-06-02'')
        (worldWith (ApiAnswers True) 1748823000100 1748823000200)
        (systemWith \<lparr> lastDMTime = 1748822400000, dailyDMs = 1,
           dmLastResetDate = ''2025-06-02'' \<rparr> [''42'' \<mapsto> 1748822400000] None))
       = ExitRan (ExitSent ''1234567890'')
   \<and> fst (attemptDM_begin (clockAt (1748822400000 + 4 * 60 * 1000) ''2025-06-02'')
        (systemWith \<lparr> lastDMTime = 1748822400000, dailyDMs = 1,
           dmLastResetDate = ''2025-06-02'' \<rparr> [''42'' \<mapsto> 1748822400000] None))
       = Some (ExitTooSoon 1)
   \<and> fst (attemptDM_begin (clockAt (1748822400000 + 25 * 60 * 1000) ''2025-06-02'')
        (systemWith \<lparr> lastDMTime = 1748822400000, dailyDMs = 1,
           dmLastResetDate = ''2025-06-02'' \<rparr> [''42'' \<mapsto> 1748822400000] None))
       = None"
  by (simp add: attempt_defs example_defs Let_def)

section \<open>Attempts in flight\<close>

lemma step_scheduler_invariant:
  assumes "schedulerAttempts r = (if timerArmed r then 0 else 1)"
  shows "schedulerAttempts (step ev r) = (if timerArmed (step ev r) then 0 else 1)"
  using assms
  by (cases ev) (auto simp: step_def split: prod.splits option.splits)

lemma run_scheduler_invariant:
  assumes "schedulerAttempts r = (if timerArmed r then 0 else 1)"
  shows "schedulerAttempts (run evs r) = (if timerArmed (run evs r) then 0 else 1)"
  using assms
proof (induction evs arbitrary: r)
  case Nil
  then show ?case by simp
next
  case (Cons ev evs)
  from Cons.prems have "schedulerAttempts (step ev r) = (if timerArmed (step ev r) then 0 else 1)"
    by (rule step_scheduler_invariant)
  then show ?case
    using Cons.IH by simp
qed

lemma step_request:
  "step (SendDmRequest c) r =
     (case fst (attemptDM_begin c (proc r)) of
        Some x \<Rightarrow> r\<lparr> proc := snd (attemptDM_begin c (proc r)) \<rparr>
      | None \<Rightarrow> r\<lparr> proc := snd (attemptDM_begin c (proc r)),
                   manualAttempts := manualAttempts r + 1 \<rparr>)"
  by (simp add: step_def split: prod.splits option.splits)

lemma step_timer:
  assumes "timerArmed r"
  shows "step (TimerFires c) r =
     (case fst (attemptDM_begin c (proc r)) of
        Some x \<Rightarrow> r\<lparr> proc := snd (attemptDM_begin c (proc r)), timerArmed := True \<rparr>
      | None \<Rightarrow> r\<lparr> proc := snd (attemptDM_begin c (proc r)), timerArmed := False,
                   schedulerAttempts := schedulerAttempts r + 1 \<rparr>)"
  using assms by (simp add: step_def split: prod.splits option.splits)

text \<open>
  Claim C4, as the code has it. The scheduler arms its next timeout only when its own
  attempt has returned, so at most one attempt of the scheduler waits at any moment.
  Neither a request for /send-dm nor a tick of the timer is turned away because
  another attempt is waiting: each starts a further attempt exactly when the spacing
  check and the daily target let it, on variables that no waiting attempt has updated
  yet, and a request is stopped only by those two checks.
\<close>

theorem no_guard_against_parallel_attempts:
  "schedulerAttempts (run evs (started s)) \<le> 1
   \<and> (DM_INTERVAL \<le> nowMs c - lastDMTime (vars (proc r))
       \<and> (dmLastResetDate (vars (proc r)) = today c \<longrightarrow>
             dailyDMs (vars (proc r)) < DMS_PER_DAY_TARGET) \<longrightarrow>
       manualAttempts (step (SendDmRequest c) r) = manualAttempts r + 1
       \<and> schedulerAttempts (step (SendDmRequest c) r) = schedulerAttempts r)
   \<and> (timerArmed r \<and> DM_INTERVAL \<le> nowMs c - lastDMTime (vars (proc r))
       \<and> (dmLastResetDate (vars (proc r)) = today c \<longrightarrow>
             dailyDMs (vars (proc r)) < DMS_PER_DAY_TARGET) \<longrightarrow>
       schedulerAttempts (step (TimerFires c) r) = schedulerAttempts r + 1
       \<and> manualAttempts (step (TimerFires c) r) = manualAttempts r)
   \<and> (nowMs c - lastDMTime (vars (proc r)) < DM_INTERVAL
       \<or> (dmLastResetDate (vars (proc r)) = today c
           \<and> DMS_PER_DAY_TARGET \<le> dailyDMs (vars (proc r))) \<longrightarrow>
       manualAttempts (step (SendDmRequest c) r) = manualAttempts r
       \<and> schedulerAttempts (step (SendDmRequest c) r) = schedulerAttempts r)"
proof -
  have "schedulerAttempts (run evs (started s)) = (if timerArmed (run evs (started s)) then 0 else 1)"
    by (rule run_scheduler_invariant) (simp add: started_def)
  then have "schedulerAttempts (run evs (started s)) \<le> 1"
    by (simp split: if_splits)
  then show ?thesis
    by (auto simp: step_request step_timer attemptDM_begin_exit)
qed

theorem no_guard_against_parallel_attempts_witness:
  "DM_INTERVAL \<le> nowMs (clockAt 1748952000000 ''2025-06-03'')
      - lastDMTime (vars (proc (step (TimerFires (clockAt 1748952000000 ''2025-06-03''))
          (started (systemWith \<lparr> lastDMTime = 1748937600000, dailyDMs = 3,
             dmLastResetDate = ''2025-06-03'' \<rparr> Map.empty None)))))
   \<and> schedulerAttempts (step (TimerFires (clockAt 1748952000000 ''2025-06-03''))
          (started (systemWith \<lparr> lastDMTime = 1748937600000, dailyDMs = 3,
             dmLastResetDate = ''2025-06-03'' \<rparr> Map.empty None))) = 1
   \<and> manualAttempts (step (SendDmRequest (clockAt 1748952000000 ''2025-06-03''))
        (step (TimerFires (clockAt 1748952000000 ''2025-06-03''))
          (started (systemWith \<lparr> lastDMTime = 1748937600000, dailyDMs = 3,
             dmLastResetDate = ''2025-06-03'' \<rparr> Map.empty None)))) = 1
   \<and> timerArmed (step (SendDmRequest (clockAt 1748952000000 ''2025-06-03''))
          (started (systemWith \<lparr> lastDMTime = 1748937600000, dailyDMs = 3,
             dmLastResetDate = ''2025-06-03'' \<rparr> Map.empty None)))
   \<and> manualAttempts (step (SendDmRequest (clockAt 1748952000000 ''2025-06-03''))
          (started (systemWith \<lparr> lastDMTime = 1748937600000, dailyDMs = 3,
             dmLastResetDate = ''2025-06-03'' \<rparr> Map.empty None))) = 1
   \<and> schedulerAttempts (step (TimerFires (clockAt 1748952000000 ''2025-06-03''))
        (step (SendDmRequest (clockAt 1748952000000 ''2025-06-03''))
          (started (systemWith \<lparr> lastDMTime = 1748937600000, dailyDMs = 3,
             dmLastResetDate = ''2025-06-03'' \<rparr> Map.empty None)))) = 1
   \<and> nowMs (clockAt 1748952000000 ''2025-06-03'')
      - lastDMTime (vars (proc (started (systemWith \<lparr> lastDMTime = 1748951940000,
          dailyDMs = 3, dmLastResetDate = ''2025-06-03'' \<rparr> Map.empty None)))) < DM_INTERVAL
   \<and> manualAttempts (step (SendDmRequest (clockAt 1748952000000 ''2025-06-03''))
        (started (systemWith \<lparr> lastDMTime = 1748951940000,
          dailyDMs = 3, dmLastResetDate = ''2025-06-03'' \<rparr> Map.empty None))) = 0"
  using
    no_guard_against_parallel_attempts [where c = "clockAt 1748952000000 ''2025-06-03''"
      and r = "step (TimerFires (clockAt 1748952000000 ''2025-06-03''))
          (started (systemWith \<lparr> lastDMTime = 1748937600000, dailyDMs = 3,
             dmLastResetDate = ''2025-06-03'' \<rparr> Map.empty None))"
      and evs = "[]" and s = "systemWith initialVars Map.empty None"]
    no_guard_against_parallel_attempts [where c = "clockAt 1748952000000 ''2025-06-03''"
      and r = "step (SendDmRequest (clockAt 1748952000000 ''2025-06-03''))
          (started (systemWith \<lparr> lastDMTime = 1748937600000, dailyDMs = 3,
             dmLastResetDate = ''2025-06-03'' \<rparr> Map.empty None))"
      and evs = "[]" and s = "systemWith initialVars Map.empty None"]
    no_guard_against_parallel_attempts [where c = "clockAt 1748952000000 ''2025-06-03''"
      and r = "started (systemWith \<lparr> lastDMTime = 1748951940000,
          dailyDMs = 3, dmLastResetDate = ''2025-06-03'' \<rparr> Map.empty None)"
      and evs = "[]" and s = "systemWith initialVars Map.empty None"]
  by (simp add: step_def started_def attempt_defs example_defs Let_def)

text \<open>
  Against C4 as stated: the scheduler's timer fires and its attempt waits on the
  campaign; a request for /send-dm arrives and its attempt waits as well, two in flight;
  both settle with a send, so that one tick of the spacing interval has sent two
  messages and counted two.
\<close>

theorem two_attempts_in_flight_counterexample:
  "schedulerAttempts (run [TimerFires (clockAt 1748952000000 ''2025-06-03''),
        SendDmRequest (clockAt 1748952000000 ''2025-06-03'')]
      (started (systemWith \<lparr> lastDMTime = 1748937600000, dailyDMs = 3,
         dmLastResetDate = ''2025-06-03'' \<rparr> Map.empty None))) = 1
   \<and> manualAttempts (run [TimerFires (clockAt 1748952000000 ''2025-06-03''),
        SendDmRequest (clockAt 1748952000000 ''2025-06-03'')]
      (started (systemWith \<lparr> lastDMTime = 1748937600000, dailyDMs = 3,
         dmLastResetDate = ''2025-06-03'' \<rparr> Map.empty None))) = 1
   \<and> sentDMs (proc (run [TimerFires (clockAt 1748952000000 ''2025-06-03''),
        SendDmRequest (clockAt 1748952000000 ''2025-06-03''),
        SchedulerSettles (worldWith (ApiAnswers True) 1748952001000 1748952002000),
        ManualSettles ((worldWith (ApiAnswers True) 1748952003000 1748952004000)
          \<lparr> findResult := FindDone (Some (someUser\<lparr> userId := ''77'' \<rparr>)) \<rparr>)]
      (started (systemWith \<lparr> lastDMTime = 1748937600000, dailyDMs = 3,
         dmLastResetDate = ''2025-06-03'' \<rparr> Map.empty None))))
     = [''1234567890'' \<mapsto> 1748952001000, ''77'' \<mapsto> 1748952003000]
   \<and> dailyDMs (vars (proc (run [TimerFires (clockAt 1748952000000 ''2025-06-03''),
        SendDmRequest (clockAt 1748952000000 ''2025-06-03''),
        SchedulerSettles (worldWith (ApiAnswers True) 1748952001000 1748952002000),
        ManualSettles ((worldWith (ApiAnswers True) 1748952003000 1748952004000)
          \<lparr> findResult := FindDone (Some (someUser\<lparr> userId := ''77'' \<rparr>)) \<rparr>)]
      (started (systemWith \<lparr> lastDMTime = 1748937600000, dailyDMs = 3,
         dmLastResetDate = ''2025-06-03'' \<rparr> Map.empty None))))) = 5"
  by (simp add: step_def started_def attempt_defs example_defs Let_def)

end
